theory Spec2Isabelle
  imports Main
begin

section \<open>Kubernetes objects handled by the simulator\<close>

text \<open>
  Only the fields that the orchestration layer (\<^verbatim>\<open>pkg/framework/generic.go\<close>) and the
  virtual bind plugin (\<^verbatim>\<open>GenericBinder\<close>) read or write are kept. A Go slice that the code
  compares with \<^verbatim>\<open>nil\<close> is an \<open>option\<close>: \<open>None\<close> is the nil slice, \<open>Some []\<close> the empty
  non-nil slice. A Go pointer that the code compares with \<^verbatim>\<open>nil\<close> is an \<open>option\<close> too.
\<close>

type_synonym PodPhase = string

definition PodPending :: PodPhase where "PodPending = ''Pending''"
definition PodRunning :: PodPhase where "PodRunning = ''Running''"
definition PodSucceeded :: PodPhase where "PodSucceeded = ''Succeeded''"
definition PodFailed :: PodPhase where "PodFailed = ''Failed''"

record OwnerReference =
  owner_Kind :: string
  owner_Name :: string

record Pod =
  pod_Namespace :: string
  pod_Name :: string
  pod_OwnerReferences :: "OwnerReference list option"
  pod_DeletionTimestamp :: "nat option"
  pod_NodeName :: string
  pod_Phase :: PodPhase

record ContainerImage =
  image_Names :: "string list"
  image_SizeBytes :: int

record Node =
  node_Name :: string
  node_Images :: "ContainerImage list option"

text \<open>\<^verbatim>\<open>schema.GroupVersionKind\<close>: group, version, kind.\<close>

type_synonym GroupVersionKind = "string \<times> string \<times> string"

text \<open>
  An \<^verbatim>\<open>unstructured.Unstructured\<close> object: its kind, its identity and the rest of its
  untyped content, which stays opaque here.
\<close>

record Unstructured =
  u_gvk :: GroupVersionKind
  u_Namespace :: string
  u_Name :: string
  u_content :: string

text \<open>
  \<^verbatim>\<open>runtime.Object\<close> is an interface; the code distinguishes \<^verbatim>\<open>*corev1.Pod\<close>,
  \<^verbatim>\<open>*corev1.Node\<close>, \<^verbatim>\<open>runtime.Unstructured\<close> and every other typed object (of which
  only kind, namespace and name matter to the store).
\<close>

datatype Object =
    PodObj Pod
  | NodeObj Node
  | TypedObj GroupVersionKind string string
  | UnstructuredObj Unstructured

section \<open>Faults and errors\<close>

text \<open>
  A Go call either returns, or panics, or ends the process with \<^verbatim>\<open>os.Exit\<close>. The last two
  are faults: \<open>Inl\<close> of a result of type \<open>fault + 'a\<close>. An \<^verbatim>\<open>error\<close> value that a function
  returns is part of its ordinary result.
\<close>

datatype error =
    ErrUnstructured
  | ErrAlreadyExists GroupVersionKind string string
  | ErrNotFound string string
  | ErrNoMatch
  | ErrDumpNil
  | ErrOther string

datatype fault =
    PanicIndexOutOfRange
  | PanicNilDereference
  | PanicCloseOfClosedChannel
  | PanicError error
  | Exit int

section \<open>The simulator\<close>

text \<open>A channel of type \<^verbatim>\<open>chan struct{}\<close> on which the code only ever calls \<^verbatim>\<open>close\<close>.\<close>

datatype chan = Open | Closed

text \<open>\<^verbatim>\<open>close(c)\<close>: closing a closed channel panics.\<close>

definition close :: "chan \<Rightarrow> fault + chan" where
  "close c = (case c of Open \<Rightarrow> Inr Closed | Closed \<Rightarrow> Inl PanicCloseOfClosedChannel)"

text \<open>\<^verbatim>\<open>pkg.Status\<close>.\<close>

record Status =
  Pods :: "Pod list"
  Nodes :: "string \<rightharpoonup> Node"
  PodsForEstimation :: "Pod list"
  NodesToScaleDown :: "string list"
  StopReason :: string

text \<open>
  \<^verbatim>\<open>genericSimulator\<close>, without the handles to the scheduler, the clients and the plugin
  sets. \<open>excludeNodes\<close> is a \<^verbatim>\<open>sets.String\<close>, a map that is \<^verbatim>\<open>nil\<close> (\<open>None\<close>) until
  \<^verbatim>\<open>WithExcludeNodes\<close> sets it.
\<close>

record genericSimulator =
  excludeNodes :: "string set option"
  withScheduledPods :: bool
  withNodeImages :: bool
  ignorePodsOnExcludesNode :: bool
  informerCh :: chan
  schedulerCh :: chan
  stopCh :: chan
  stopped :: bool
  status :: Status
  saveTo :: string

text \<open>The fields as \<^verbatim>\<open>NewGenericSimulator\<close> sets them before the options are applied.\<close>

definition NewGenericSimulator :: genericSimulator where
  "NewGenericSimulator =
     \<lparr> excludeNodes = None,
       withScheduledPods = True,
       withNodeImages = True,
       ignorePodsOnExcludesNode = False,
       informerCh = Open,
       schedulerCh = Open,
       stopCh = Open,
       stopped = False,
       status = \<lparr> Pods = [], Nodes = Map.empty, PodsForEstimation = [],
                  NodesToScaleDown = [], StopReason = [] \<rparr>,
       saveTo = [] \<rparr>"

definition WithExcludeNodes :: "string list \<Rightarrow> genericSimulator \<Rightarrow> genericSimulator" where
  "WithExcludeNodes names s = s\<lparr>excludeNodes := Some (set names)\<rparr>"

definition WithNodeImages :: "bool \<Rightarrow> genericSimulator \<Rightarrow> genericSimulator" where
  "WithNodeImages b s = s\<lparr>withNodeImages := b\<rparr>"

definition WithScheduledPods :: "bool \<Rightarrow> genericSimulator \<Rightarrow> genericSimulator" where
  "WithScheduledPods b s = s\<lparr>withScheduledPods := b\<rparr>"

definition WithIgnorePodsOnExcludesNode :: "bool \<Rightarrow> genericSimulator \<Rightarrow> genericSimulator" where
  "WithIgnorePodsOnExcludesNode b s = s\<lparr>ignorePodsOnExcludesNode := b\<rparr>"

definition WithSaveTo :: "string \<Rightarrow> genericSimulator \<Rightarrow> genericSimulator" where
  "WithSaveTo to s = s\<lparr>saveTo := to\<rparr>"

section \<open>The sanitizer: preAdd\<close>

text \<open>
  The Go expression
  \<^verbatim>\<open>pod.OwnerReferences != nil && pod.OwnerReferences[0].Kind == "DaemonSet"\<close>.
  Indexing a non-nil slice of length 0 panics.
\<close>

definition ownedByDaemonSet :: "Pod \<Rightarrow> fault + bool" where
  "ownedByDaemonSet pod =
     (case pod_OwnerReferences pod of
        None \<Rightarrow> Inr False
      | Some [] \<Rightarrow> Inl PanicIndexOutOfRange
      | Some (r # _) \<Rightarrow> Inr (owner_Kind r = ''DaemonSet''))"

text \<open>
  The first \<^verbatim>\<open>if\<close> of the Pod branch: whether the pod is dropped because of the node it
  is on. \<^verbatim>\<open>||\<close> evaluates its right operand only when the left one is false.
  Looking a key up in a \<^verbatim>\<open>nil\<close> map is allowed in Go; the code tests for \<^verbatim>\<open>nil\<close> first.
\<close>

definition dropOnExcludedNode :: "genericSimulator \<Rightarrow> Pod \<Rightarrow> fault + bool" where
  "dropOnExcludedNode s pod =
     (case excludeNodes s of
        None \<Rightarrow> Inr False
      | Some ex \<Rightarrow>
          if pod_NodeName pod \<in> ex then
            (if ignorePodsOnExcludesNode s then Inr True else ownedByDaemonSet pod)
          else Inr False)"

text \<open>
  \<^verbatim>\<open>preAdd\<close> returns \<^verbatim>\<open>(bool, runtime.Object)\<close>, the object being \<^verbatim>\<open>nil\<close> when the flag
  is false. \<^verbatim>\<open>utils.InitPod\<close> is the first argument. For a Node the Go code clears the
  images in place and returns the same pointer; the model returns the updated node.
\<close>

fun preAdd :: "(Pod \<Rightarrow> Pod) \<Rightarrow> genericSimulator \<Rightarrow> Object \<Rightarrow> fault + (bool \<times> Object option)" where
  "preAdd InitPod s (PodObj pod) =
     (case dropOnExcludedNode s pod of
        Inl f \<Rightarrow> Inl f
      | Inr True \<Rightarrow> Inr (False, None)
      | Inr False \<Rightarrow>
          if pod_Phase pod = PodSucceeded \<or> pod_Phase pod = PodFailed
             \<or> pod_DeletionTimestamp pod \<noteq> None
          then Inr (False, None)
          else if \<not> withScheduledPods s
          then Inr (True, Some (PodObj ((InitPod pod)\<lparr>pod_Phase := PodPending\<rparr>)))
          else Inr (True, Some (PodObj pod)))"
| "preAdd InitPod s (NodeObj node) =
     (case excludeNodes s of
        None \<Rightarrow> Inr (True, Some (NodeObj node))
      | Some ex \<Rightarrow>
          if node_Name node \<in> ex then Inr (False, None)
          else if \<not> withNodeImages s
          then Inr (True, Some (NodeObj (node\<lparr>node_Images := None\<rparr>)))
          else Inr (True, Some (NodeObj node)))"
| "preAdd InitPod s obj = Inr (True, Some obj)"

text \<open>
  Modelled from the spec: \<^verbatim>\<open>utils.InitPod\<close>, which is not among the sources. Section 4.2
  says that the pod is reset to the pending phase with any prior node assignment cleared;
  \<open>preAdd\<close> sets the phase itself, so this function clears the node assignment. The
  theorems about \<open>preAdd\<close> hold for every function in its place; this one serves where a
  concrete function is needed.
\<close>

definition InitPod_spec :: "Pod \<Rightarrow> Pod" where
  "InitPod_spec pod = pod\<lparr>pod_NodeName := []\<rparr>"

text \<open>Whether a result of \<open>preAdd\<close> is a return with the flag set.\<close>

definition included :: "fault + (bool \<times> Object option) \<Rightarrow> bool" where
  "included r = (case r of Inl _ \<Rightarrow> False | Inr (needAdd, _) \<Rightarrow> needAdd)"

section \<open>The isolated store\<close>

text \<open>
  Modelled from the spec: the object tracker of the fake clientset, an external library.
  Section 3 and section 4.3: an object is identified by kind, namespace and name; create
  fails if an object with the same identity exists; update requires the object to exist
  and replaces its full state. The tracker is the list of its objects in insertion order.
\<close>

type_synonym tracker = "Object list"

definition podGVK :: GroupVersionKind where
  "podGVK = ([], ''v1'', ''Pod'')"

definition nodeGVK :: GroupVersionKind where
  "nodeGVK = ([], ''v1'', ''Node'')"

fun identity :: "Object \<Rightarrow> GroupVersionKind \<times> string \<times> string" where
  "identity (PodObj p) = (podGVK, pod_Namespace p, pod_Name p)"
| "identity (NodeObj n) = (nodeGVK, [], node_Name n)"
| "identity (TypedObj k ns n) = (k, ns, n)"
| "identity (UnstructuredObj u) = (u_gvk u, u_Namespace u, u_Name u)"

definition tracker_Add :: "tracker \<Rightarrow> Object \<Rightarrow> error + tracker" where
  "tracker_Add t obj =
     (if identity obj \<in> identity ` set t
      then (case identity obj of (k, ns, n) \<Rightarrow> Inl (ErrAlreadyExists k ns n))
      else Inr (t @ [obj]))"

text \<open>\<^verbatim>\<open>Pods(ns).Get(name)\<close> on the store: the pod stored under that namespace and name.\<close>

fun pods_Get :: "tracker \<Rightarrow> string \<Rightarrow> string \<Rightarrow> error + Pod" where
  "pods_Get [] ns n = Inl (ErrNotFound ns n)"
| "pods_Get (PodObj p # t) ns n =
     (if pod_Namespace p = ns \<and> pod_Name p = n then Inr p else pods_Get t ns n)"
| "pods_Get (_ # t) ns n = pods_Get t ns n"

text \<open>
  \<^verbatim>\<open>Pods(ns).Update(pod)\<close> on the store: replaces the pod stored under \<open>ns\<close> and the name of
  \<open>pod\<close>, and fails if there is none.
\<close>

fun pods_Update :: "tracker \<Rightarrow> string \<Rightarrow> Pod \<Rightarrow> error + tracker" where
  "pods_Update [] ns pod = Inl (ErrNotFound ns (pod_Name pod))"
| "pods_Update (PodObj p # t) ns pod =
     (if pod_Namespace p = ns \<and> pod_Name p = pod_Name pod
      then Inr (PodObj pod # t)
      else (case pods_Update t ns pod of Inl e \<Rightarrow> Inl e | Inr t' \<Rightarrow> Inr (PodObj p # t')))"
| "pods_Update (obj # t) ns pod =
     (case pods_Update t ns pod of Inl e \<Rightarrow> Inl e | Inr t' \<Rightarrow> Inr (obj # t'))"

text \<open>
  \<^verbatim>\<open>Nodes().List\<close> on the store. The list of the tracker does not fail; \<^verbatim>\<open>Stop\<close> drops
  the error that the call returns with it.
\<close>

fun nodes_List :: "tracker \<Rightarrow> Node list" where
  "nodes_List [] = []"
| "nodes_List (NodeObj n # t) = n # nodes_List t"
| "nodes_List (_ # t) = nodes_List t"

section \<open>The snapshot loader: getInitObjects\<close>

text \<open>
  \<open>initResources\<close>: each kind with the zero value that its constructor returns. The Go map
  has no order; the order in which \<^verbatim>\<open>range\<close> visits its keys is an input of the loader.
\<close>

definition zeroPod :: Pod where
  "zeroPod = \<lparr> pod_Namespace = [], pod_Name = [], pod_OwnerReferences = None,
     pod_DeletionTimestamp = None, pod_NodeName = [], pod_Phase = [] \<rparr>"

definition zeroNode :: Node where
  "zeroNode = \<lparr> node_Name = [], node_Images = None \<rparr>"

definition initResources :: "(GroupVersionKind \<times> Object) list" where
  "initResources =
     [(([], ''v1'', ''Namespace''), TypedObj ([], ''v1'', ''Namespace'') [] []),
      (podGVK, PodObj zeroPod),
      (nodeGVK, NodeObj zeroNode),
      (([], ''v1'', ''PersistentVolume''), TypedObj ([], ''v1'', ''PersistentVolume'') [] []),
      (([], ''v1'', ''PersistentVolumeClaim''),
         TypedObj ([], ''v1'', ''PersistentVolumeClaim'') [] []),
      ((''storage.k8s.io'', ''v1'', ''StorageClass''),
         TypedObj (''storage.k8s.io'', ''v1'', ''StorageClass'') [] []),
      ((''storage.k8s.io'', ''v1'', ''CSINode''),
         TypedObj (''storage.k8s.io'', ''v1'', ''CSINode'') [] []),
      ((''storage.k8s.io'', ''v1'', ''CSIDriver''),
         TypedObj (''storage.k8s.io'', ''v1'', ''CSIDriver'') [] []),
      ((''storage.k8s.io'', ''v1'', ''CSIStorageCapacity''),
         TypedObj (''storage.k8s.io'', ''v1alpha1'', ''CSIStorageCapacity'') [] [])]"

datatype RESTScopeName = RESTScopeNameRoot | RESTScopeNameNamespace

record RESTMapping =
  rm_Resource :: string
  rm_Scope :: RESTScopeName

text \<open>
  A request that reaches the real cluster: a REST-mapping lookup, or a list of a resource
  (the flag is set when the list runs over all namespaces).
\<close>

datatype request = ReqRESTMapping GroupVersionKind | ReqList string bool

text \<open>
  The collaborators, as the functions the code calls. A Go function that returns a value
  and an \<^verbatim>\<open>error\<close> returns a pair here, either of which may be \<^verbatim>\<open>nil\<close>. The real cluster
  may answer differently at each call of the loader, so each call takes its own \<open>env\<close>.
\<close>

record env =
  env_InitPod :: "Pod \<Rightarrow> Pod"
  env_FromUnstructured :: "Unstructured \<Rightarrow> Object \<Rightarrow> error + Object"
  env_RESTMapping :: "GroupVersionKind \<Rightarrow> RESTMapping option \<times> error option"
  env_List :: "string \<Rightarrow> bool \<Rightarrow> Unstructured list option \<times> error option"
  env_rangeOrder :: "GroupVersionKind list"

text \<open>
  The package-level variables \<^verbatim>\<open>once\<close> and \<^verbatim>\<open>initObjects\<close>, and the requests sent to the
  real cluster so far, which are the effect that the latch bounds.
\<close>

record world =
  once :: bool
  initObjects :: "Unstructured list"
  requests :: "request list"

definition initialWorld :: world where
  "initialWorld = \<lparr> once = False, initObjects = [], requests = [] \<rparr>"

text \<open>
  The body of the closure given to \<^verbatim>\<open>once.Do\<close>: the loop over the kinds.
  \<^verbatim>\<open>list.EachListItem\<close> dereferences \<^verbatim>\<open>list\<close>, which panics when the list call has
  returned \<^verbatim>\<open>nil\<close>.
\<close>

fun fetchKinds :: "env \<Rightarrow> GroupVersionKind list \<Rightarrow> world \<Rightarrow> fault + world" where
  "fetchKinds e [] w = Inr w"
| "fetchKinds e (gvk # gvks) w =
     (case env_RESTMapping e gvk of (restMapping, err) \<Rightarrow>
        let w1 = w\<lparr>requests := requests w @ [ReqRESTMapping gvk]\<rparr> in
        if err \<noteq> None \<and> err \<noteq> Some ErrNoMatch then Inl (Exit 1)
        else (case restMapping of
            None \<Rightarrow> fetchKinds e gvks w1
          | Some m \<Rightarrow>
              let allNamespaces = (rm_Scope m \<noteq> RESTScopeNameRoot) in
              (case env_List e (rm_Resource m) allNamespaces of (list, lerr) \<Rightarrow>
                 let w2 = w1\<lparr>requests := requests w1 @ [ReqList (rm_Resource m) allNamespaces]\<rparr> in
                 if lerr \<noteq> None \<and> (case lerr of Some (ErrNotFound _ _) \<Rightarrow> False | _ \<Rightarrow> True)
                 then Inl (Exit 1)
                 else (case list of
                     None \<Rightarrow> Inl PanicNilDereference
                   | Some items \<Rightarrow>
                       fetchKinds e gvks (w2\<lparr>initObjects := initObjects w2 @ items\<rparr>)))))"

text \<open>\<^verbatim>\<open>sync.Once.Do\<close>: runs the function unless the latch is set, and sets the latch.\<close>

definition once_Do :: "(world \<Rightarrow> fault + world) \<Rightarrow> world \<Rightarrow> fault + world" where
  "once_Do f w =
     (if once w then Inr w
      else (case f w of Inl x \<Rightarrow> Inl x | Inr w' \<Rightarrow> Inr (w'\<lparr>once := True\<rparr>)))"

definition getInitObjects :: "env \<Rightarrow> world \<Rightarrow> fault + (Unstructured list \<times> world)" where
  "getInitObjects e w =
     (case once_Do (fetchKinds e (env_rangeOrder e)) w of
        Inl x \<Rightarrow> Inl x
      | Inr w' \<Rightarrow> Inr (initObjects w', w'))"

text \<open>
  A sequence of calls of the loader in one process, each with the collaborators as they
  are at that call. A fault ends the process; otherwise the results of the calls are
  returned in order, with the final state.
\<close>

fun getInitObjectsSeq :: "env list \<Rightarrow> world \<Rightarrow> fault + (Unstructured list list \<times> world)" where
  "getInitObjectsSeq [] w = Inr ([], w)"
| "getInitObjectsSeq (e # es) w =
     (case getInitObjects e w of
        Inl x \<Rightarrow> Inl x
      | Inr (objs, w') \<Rightarrow>
          (case getInitObjectsSeq es w' of
             Inl x \<Rightarrow> Inl x
           | Inr (rs, w'') \<Rightarrow> Inr (objs # rs, w'')))"

section \<open>Reading the request log\<close>

text \<open>The kinds whose REST mapping was requested, and the list requests, in order.\<close>

fun resolvedKinds :: "request list \<Rightarrow> GroupVersionKind list" where
  "resolvedKinds [] = []"
| "resolvedKinds (ReqRESTMapping gvk # rs) = gvk # resolvedKinds rs"
| "resolvedKinds (ReqList _ _ # rs) = resolvedKinds rs"

fun listRequests :: "request list \<Rightarrow> request list" where
  "listRequests [] = []"
| "listRequests (ReqRESTMapping _ # rs) = listRequests rs"
| "listRequests (ReqList res allNamespaces # rs) = ReqList res allNamespaces # listRequests rs"

section \<open>InitTheWorld\<close>

text \<open>
  The sanitize-and-insert step shared by the two loops:
  \<^verbatim>\<open>if needAdd, obj := s.preAdd(obj); needAdd { if err := ...Tracker().Add(obj); ... }\<close>.
  The result is the error returned (or \<open>None\<close>) with the store as it is then.
\<close>

definition addSanitized ::
  "(Pod \<Rightarrow> Pod) \<Rightarrow> genericSimulator \<Rightarrow> Object \<Rightarrow> tracker \<Rightarrow> fault + (error option \<times> tracker)" where
  "addSanitized InitPod s obj t =
     (case preAdd InitPod s obj of
        Inl x \<Rightarrow> Inl x
      | Inr (needAdd, obj') \<Rightarrow>
          if needAdd then
            (case obj' of
               None \<Rightarrow> Inl PanicNilDereference
             | Some ob \<Rightarrow>
                 (case tracker_Add t ob of Inl err \<Rightarrow> Inr (Some err, t) | Inr t' \<Rightarrow> Inr (None, t')))
          else Inr (None, t))"

text \<open>The loop over explicit objects.\<close>

fun initFromObjs ::
  "(Pod \<Rightarrow> Pod) \<Rightarrow> genericSimulator \<Rightarrow> Object list \<Rightarrow> tracker \<Rightarrow> fault + (error option \<times> tracker)" where
  "initFromObjs InitPod s [] t = Inr (None, t)"
| "initFromObjs InitPod s (obj # objs) t =
     (case obj of
        UnstructuredObj _ \<Rightarrow> Inr (Some ErrUnstructured, t)
      | _ \<Rightarrow>
         (case addSanitized InitPod s obj t of
            Inl x \<Rightarrow> Inl x
          | Inr (Some err, t') \<Rightarrow> Inr (Some err, t')
          | Inr (None, t') \<Rightarrow> initFromObjs InitPod s objs t'))"

text \<open>
  The loop over the snapshot. Calling the constructor of a kind that \<open>initResources\<close>
  does not have calls a \<^verbatim>\<open>nil\<close> function, which panics.
\<close>

fun initFromSnapshot ::
  "env \<Rightarrow> genericSimulator \<Rightarrow> Unstructured list \<Rightarrow> tracker \<Rightarrow> fault + (error option \<times> tracker)" where
  "initFromSnapshot e s [] t = Inr (None, t)"
| "initFromSnapshot e s (u # us) t =
     (case map_of initResources (u_gvk u) of
        None \<Rightarrow> Inl PanicNilDereference
      | Some zero \<Rightarrow>
         (case env_FromUnstructured e u zero of
            Inl err \<Rightarrow> Inr (Some err, t)
          | Inr obj \<Rightarrow>
             (case addSanitized (env_InitPod e) s obj t of
                Inl x \<Rightarrow> Inl x
              | Inr (Some err, t') \<Rightarrow> Inr (Some err, t')
              | Inr (None, t') \<Rightarrow> initFromSnapshot e s us t')))"

text \<open>
  \<^verbatim>\<open>InitTheWorld\<close> returns an \<^verbatim>\<open>error\<close> (\<open>None\<close> is \<^verbatim>\<open>nil\<close>); the model returns with it the
  package-level state and the store, which the call has changed whatever it returns.
\<close>

definition InitTheWorld ::
  "env \<Rightarrow> genericSimulator \<Rightarrow> Object list \<Rightarrow> world \<Rightarrow> tracker
     \<Rightarrow> fault + (error option \<times> world \<times> tracker)" where
  "InitTheWorld e s objs w t =
     (if length objs = 0 then
        (case getInitObjects e w of
           Inl x \<Rightarrow> Inl x
         | Inr (initObjs, w') \<Rightarrow>
            (case initFromSnapshot e s initObjs t of
               Inl x \<Rightarrow> Inl x
             | Inr (err, t') \<Rightarrow> Inr (err, w', t')))
      else
        (case initFromObjs (env_InitPod e) s objs t of
           Inl x \<Rightarrow> Inl x
         | Inr (err, t') \<Rightarrow> Inr (err, w, t')))"

section \<open>Stop\<close>

text \<open>The loop that fills \<^verbatim>\<open>nodeMap\<close> from the listed nodes.\<close>

fun nodeMapOf :: "Node list \<Rightarrow> (string \<rightharpoonup> Node) \<Rightarrow> (string \<rightharpoonup> Node)" where
  "nodeMapOf [] m = m"
| "nodeMapOf (node # nodes) m = nodeMapOf nodes (m(node_Name node \<mapsto> node))"

text \<open>
  The outcomes of the operating-system and library calls of the save: \<^verbatim>\<open>os.OpenFile\<close>
  and \<^verbatim>\<open>file.Write\<close> by path (\<open>None\<close> is success), \<^verbatim>\<open>json.Marshal\<close> of the status.
  What the file holds afterwards is not modelled.
\<close>

record os =
  os_OpenFile :: "string \<Rightarrow> error option"
  json_Marshal :: "Status \<Rightarrow> error + string"
  file_Write :: "string \<Rightarrow> string \<Rightarrow> error option"

text \<open>
  The block under \<^verbatim>\<open>if len(s.saveTo) > 0\<close>: a failed open panics, a failed
  serialization or write returns the error.
\<close>

definition saveStatus :: "os \<Rightarrow> genericSimulator \<Rightarrow> fault + error option" where
  "saveStatus os s =
     (case os_OpenFile os (saveTo s) of
        Some err \<Rightarrow> Inl (PanicError err)
      | None \<Rightarrow>
          (case json_Marshal os (status s) of
             Inl err \<Rightarrow> Inr (Some err)
           | Inr bytes \<Rightarrow>
               (case file_Write os (saveTo s) bytes of
                  Some err \<Rightarrow> Inr (Some err)
                | None \<Rightarrow> Inr None)))"

text \<open>
  The deferred function that closes the three channels, in the order of the source. A
  panic leaves the channels after it as they were.
\<close>

definition closeSignals :: "genericSimulator \<Rightarrow> fault option \<times> genericSimulator" where
  "closeSignals s =
     (case close (stopCh s) of
        Inl x \<Rightarrow> (Some x, s)
      | Inr c1 \<Rightarrow>
          let s1 = s\<lparr>stopCh := c1\<rparr> in
          (case close (informerCh s1) of
             Inl x \<Rightarrow> (Some x, s1)
           | Inr c2 \<Rightarrow>
               let s2 = s1\<lparr>informerCh := c2\<rparr> in
               (case close (schedulerCh s2) of
                  Inl x \<Rightarrow> (Some x, s2)
                | Inr c3 \<Rightarrow> (None, s2\<lparr>schedulerCh := c3\<rparr>))))"

text \<open>
  The part of \<^verbatim>\<open>Stop\<close> that runs with \<^verbatim>\<open>stopMux\<close> held, from \<^verbatim>\<open>s.stopMux.Lock()\<close> to the
  deferred unlock. The mutex makes it atomic with respect to every other call of
  \<^verbatim>\<open>Stop\<close>. The deferred close of the channels is registered after the save, so the
  returns of the save leave before it exists. The result is what the call returns
  (\<open>Inr None\<close> is \<^verbatim>\<open>nil\<close>) or the panic that ends it, with the simulator as it is then.
\<close>

definition stopLocked ::
  "os \<Rightarrow> (string \<rightharpoonup> Node) \<Rightarrow> string \<Rightarrow> genericSimulator
     \<Rightarrow> (fault + error option) \<times> genericSimulator" where
  "stopLocked os nodeMap reason s =
     (if stopped s then (Inr None, s)
      else
        (case (if length (saveTo s) > 0 then saveStatus os s else Inr None) of
           Inl x \<Rightarrow> (Inl x, s)
         | Inr (Some err) \<Rightarrow> (Inr (Some err), s)
         | Inr None \<Rightarrow>
             let s1 = s\<lparr>status := (status s)\<lparr>StopReason := reason, Nodes := nodeMap\<rparr>,
                        stopped := True\<rparr> in
             (case closeSignals s1 of
                (Some x, s2) \<Rightarrow> (Inl x, s2)
              | (None, s2) \<Rightarrow> (Inr None, s2))))"

text \<open>
  \<^verbatim>\<open>Stop\<close>: the node list is read from the store before the mutex is taken; it touches
  no field of the simulator.
\<close>

definition Stop ::
  "os \<Rightarrow> tracker \<Rightarrow> string \<Rightarrow> genericSimulator \<Rightarrow> (fault + error option) \<times> genericSimulator" where
  "Stop os t reason s = stopLocked os (nodeMapOf (nodes_List t) Map.empty) reason s"

text \<open>The three channels of a simulator.\<close>

definition signals :: "genericSimulator \<Rightarrow> chan list" where
  "signals s = [stopCh s, informerCh s, schedulerCh s]"

section \<open>Two concurrent calls of Stop\<close>

text \<open>
  A call of \<^verbatim>\<open>Stop\<close> runs in two steps: it lists the nodes, and then it runs the part
  under the mutex, which no other call can interleave with. Between the two steps any
  other call may run. A call is at its entry, or has its node map, or has returned (or
  panicked).
\<close>

datatype call = Entered | Listed "string \<rightharpoonup> Node" | Returned "fault + error option"

text \<open>What a call of \<^verbatim>\<open>Stop\<close> is given: its reason, and the store and the system it meets.\<close>

record stopArgs =
  arg_os :: os
  arg_store :: tracker
  arg_reason :: string

fun stepCall :: "stopArgs \<Rightarrow> call \<Rightarrow> genericSimulator \<Rightarrow> call \<times> genericSimulator" where
  "stepCall a Entered s = (Listed (nodeMapOf (nodes_List (arg_store a)) Map.empty), s)"
| "stepCall a (Listed nodeMap) s =
     (case stopLocked (arg_os a) nodeMap (arg_reason a) s of (r, s') \<Rightarrow> (Returned r, s'))"
| "stepCall a (Returned r) s = (Returned r, s)"

definition panicked :: "call \<Rightarrow> bool" where
  "panicked c = (case c of Returned (Inl _) \<Rightarrow> True | _ \<Rightarrow> False)"

text \<open>
  Two calls under a schedule: each entry of the list says which call takes the next step
  (\<open>True\<close> for the first). A panic of either call ends the process.
\<close>

fun interleave ::
  "bool list \<Rightarrow> stopArgs \<Rightarrow> stopArgs \<Rightarrow> genericSimulator \<times> call \<times> call
     \<Rightarrow> genericSimulator \<times> call \<times> call" where
  "interleave [] a b cfg = cfg"
| "interleave (first # sch) a b (s, ca, cb) =
     (if panicked ca \<or> panicked cb then (s, ca, cb)
      else if first then
        (case stepCall a ca s of (ca', s') \<Rightarrow> interleave sch a b (s', ca', cb))
      else
        (case stepCall b cb s of (cb', s') \<Rightarrow> interleave sch a b (s', ca, cb')))"

text \<open>
  For the proofs: how far a call is; that a call, if it has returned, has returned
  \<^verbatim>\<open>nil\<close>; that a call has panicked on closing a closed channel; the invariant of two
  calls on a simulator that starts as \<open>s0\<close>; and that a simulator which is not stopped has
  its channels open.
\<close>

fun progress :: "call \<Rightarrow> nat" where
  "progress Entered = 0"
| "progress (Listed _) = 1"
| "progress (Returned _) = 2"

definition returnedNil :: "call \<Rightarrow> bool" where
  "returnedNil c = (case c of Returned r \<Rightarrow> r = Inr None | _ \<Rightarrow> True)"

definition doubleClose :: "call \<Rightarrow> bool" where
  "doubleClose c = (c = Returned (Inl PanicCloseOfClosedChannel))"

definition stopInv :: "genericSimulator \<Rightarrow> genericSimulator \<times> call \<times> call \<Rightarrow> bool" where
  "stopInv s0 cfg = (case cfg of (s, ca, cb) \<Rightarrow>
     (s = s0 \<and> progress ca < 2 \<and> progress cb < 2)
     \<or> (stopped s \<and> signals s = [Closed, Closed, Closed] \<and> returnedNil ca \<and> returnedNil cb))"

definition consistent :: "genericSimulator \<Rightarrow> bool" where
  "consistent s = (stopped s \<or> signals s = [Open, Open, Open])"

section \<open>GetPodsByNode\<close>

text \<open>
  The cache dump of the scheduler, as far as the code reads it. A map from node names to
  \<^verbatim>\<open>*NodeInfo\<close> yields \<^verbatim>\<open>nil\<close> for a name that it does not have.
\<close>

record PodInfo =
  pi_Pod :: "Pod option"

record NodeInfo =
  ni_Pods :: "PodInfo list"

record Dump =
  dump_Nodes :: "string \<rightharpoonup> NodeInfo"

text \<open>
  The loop over \<^verbatim>\<open>podInfos\<close>. \<open>res\<close> is a slice that starts \<^verbatim>\<open>nil\<close> (\<open>None\<close>);
  \<^verbatim>\<open>append\<close> makes it non-nil.
\<close>

fun appendPods :: "PodInfo list \<Rightarrow> Pod list option \<Rightarrow> Pod list option" where
  "appendPods [] res = res"
| "appendPods (podInfo # podInfos) res =
     appendPods podInfos
       (case pi_Pod podInfo of
          None \<Rightarrow> res
        | Some pod \<Rightarrow> Some ((case res of None \<Rightarrow> [] | Some ps \<Rightarrow> ps) @ [pod]))"

text \<open>The first argument is what \<^verbatim>\<open>s.scheduler.SchedulerCache.Dump()\<close> returns.\<close>

definition GetPodsByNode :: "Dump option \<Rightarrow> string \<Rightarrow> error + Pod list" where
  "GetPodsByNode dump nodeName =
     (let res =
        (case dump of
           None \<Rightarrow> None
         | Some d \<Rightarrow>
             (case dump_Nodes d nodeName of
                None \<Rightarrow> None
              | Some nodeInfo \<Rightarrow> appendPods (ni_Pods nodeInfo) None))
      in case res of None \<Rightarrow> Inl ErrDumpNil | Some ps \<Rightarrow> Inr ps)"

section \<open>The virtual bind plugin\<close>

text \<open>
  \<^verbatim>\<open>framework.Status\<close>: a code and a message, the message being a format with the error
  that is printed into it. A \<^verbatim>\<open>nil\<close> status (\<open>None\<close>) is success.
\<close>

datatype Code = Success | Error | Unschedulable

datatype framework_Status = NewStatus Code string error

text \<open>
  The part of \<^verbatim>\<open>kubernetes.Interface\<close> that the plugin calls, over a store of type \<open>'st\<close>:
  \<^verbatim>\<open>CoreV1().Pods(ns).Get(name)\<close> and \<^verbatim>\<open>CoreV1().Pods(ns).Update(pod)\<close>.
\<close>

record 'st client =
  client_Get :: "'st \<Rightarrow> string \<Rightarrow> string \<Rightarrow> error + Pod"
  client_Update :: "'st \<Rightarrow> string \<Rightarrow> Pod \<Rightarrow> error + 'st"

text \<open>The fake clientset over the isolated store.\<close>

definition fakeClient :: "tracker client" where
  "fakeClient = \<lparr> client_Get = pods_Get, client_Update = pods_Update \<rparr>"

text \<open>
  \<^verbatim>\<open>GenericBinder\<close>. The hook is a Go function: it may change a state of its own (\<open>'w\<close>),
  return an \<^verbatim>\<open>error\<close>, or panic. A \<^verbatim>\<open>nil\<close> hook is \<open>None\<close>.
\<close>

record ('st, 'w) GenericBinder =
  plugin_client :: "'st client"
  postBindHook :: "(Pod \<Rightarrow> 'w \<Rightarrow> fault + (error option \<times> 'w)) option"

definition New ::
  "(Pod \<Rightarrow> 'w \<Rightarrow> fault + (error option \<times> 'w)) option \<Rightarrow> 'st client \<Rightarrow> ('st, 'w) GenericBinder" where
  "New hook c = \<lparr> plugin_client = c, postBindHook = hook \<rparr>"

text \<open>\<^verbatim>\<open>Bind\<close> returns a status; the model returns the store with it.\<close>

definition Bind ::
  "('st, 'w) GenericBinder \<Rightarrow> Pod \<Rightarrow> string \<Rightarrow> 'st \<Rightarrow> framework_Status option \<times> 'st" where
  "Bind b p nodeName st =
     (case client_Get (plugin_client b) st (pod_Namespace p) (pod_Name p) of
        Inl err \<Rightarrow> (Some (NewStatus Error ''Unable to bind: %v'' err), st)
      | Inr pod \<Rightarrow>
          let updatedPod = pod\<lparr>pod_NodeName := nodeName, pod_Phase := PodRunning\<rparr> in
          (case client_Update (plugin_client b) st (pod_Namespace pod) updatedPod of
             Inl err \<Rightarrow> (Some (NewStatus Error ''Unable to update binded pod: %v'' err), st)
           | Inr st' \<Rightarrow> (None, st')))"

definition PreBind :: "('st, 'w) GenericBinder \<Rightarrow> Pod \<Rightarrow> string \<Rightarrow> framework_Status option" where
  "PreBind b p nodeName = None"

text \<open>
  \<^verbatim>\<open>PostBind\<close> has no result: the status that it builds from an error of the hook is
  dropped. The model returns the state of the hook, or the panic of the hook.
\<close>

definition PostBind :: "('st, 'w) GenericBinder \<Rightarrow> Pod \<Rightarrow> 'w \<Rightarrow> fault + 'w" where
  "PostBind b pod w =
     (case postBindHook b of
        None \<Rightarrow> Inr w
      | Some hook \<Rightarrow>
          (case hook pod w of
             Inl x \<Rightarrow> Inl x
           | Inr (None, w') \<Rightarrow> Inr w'
           | Inr (Some err, w') \<Rightarrow>
               (let dropped = NewStatus Error ''Invoking postBindHook gives an error: %v'' err
                in Inr w')))"

section \<open>Concrete objects and simulators\<close>

definition daemonSetPod :: Pod where
  "daemonSetPod = \<lparr> pod_Namespace = ''kube-system'', pod_Name = ''proxy-1'',
     pod_OwnerReferences = Some [\<lparr> owner_Kind = ''DaemonSet'', owner_Name = ''proxy'' \<rparr>],
     pod_DeletionTimestamp = None, pod_NodeName = ''n1'', pod_Phase = PodRunning \<rparr>"

definition succeededPod :: Pod where
  "succeededPod = \<lparr> pod_Namespace = ''default'', pod_Name = ''job-1'',
     pod_OwnerReferences = Some [],
     pod_DeletionTimestamp = None, pod_NodeName = ''n1'', pod_Phase = PodSucceeded \<rparr>"

definition nodeWithImages :: Node where
  "nodeWithImages = \<lparr> node_Name = ''n2'',
     node_Images = Some [\<lparr> image_Names = [''nginx:1.25''], image_SizeBytes = 70000000 \<rparr>] \<rparr>"

definition excludeN1 :: genericSimulator where
  "excludeN1 = WithExcludeNodes [''n1''] NewGenericSimulator"

definition pendingPod :: Pod where
  "pendingPod = \<lparr> pod_Namespace = ''default'', pod_Name = ''web-1'',
     pod_OwnerReferences = None, pod_DeletionTimestamp = None,
     pod_NodeName = [], pod_Phase = PodPending \<rparr>"

definition smallStore :: tracker where
  "smallStore = [NodeObj nodeWithImages, PodObj pendingPod]"

text \<open>A client whose updates are refused, as a reactor of the fake clientset can make them.\<close>

definition readOnlyClient :: "tracker client" where
  "readOnlyClient = \<lparr> client_Get = pods_Get,
     client_Update = (\<lambda>t ns pod. Inl (ErrOther ''forbidden'')) \<rparr>"

text \<open>A hook that records the pod it is given and returns an error.\<close>

definition failingHook :: "Pod \<Rightarrow> Pod list \<Rightarrow> fault + (error option \<times> Pod list)" where
  "failingHook pod seen = Inr (Some (ErrOther ''hook failed''), seen @ [pod])"

definition diskFull :: os where
  "diskFull = \<lparr> os_OpenFile = (\<lambda>path. None), json_Marshal = (\<lambda>st. Inr ''{}''),
     file_Write = (\<lambda>path bytes. Some (ErrOther ''no space left on device'')) \<rparr>"

definition diskOk :: os where
  "diskOk = \<lparr> os_OpenFile = (\<lambda>path. None), json_Marshal = (\<lambda>st. Inr ''{}''),
     file_Write = (\<lambda>path bytes. None) \<rparr>"

definition savingSimulator :: genericSimulator where
  "savingSimulator = WithSaveTo ''/tmp/status.json'' NewGenericSimulator"

definition stopDone :: stopArgs where
  "stopDone = \<lparr> arg_os = diskOk, arg_store = smallStore, arg_reason = ''done'' \<rparr>"

definition dumpWithIdleNode :: Dump where
  "dumpWithIdleNode = \<lparr> dump_Nodes = [''n1'' \<mapsto> \<lparr> ni_Pods = [] \<rparr>] \<rparr>"

definition podItem :: Unstructured where
  "podItem = \<lparr> u_gvk = podGVK, u_Namespace = ''default'', u_Name = ''web-1'',
     u_content = ''{}'' \<rparr>"

definition nodeItem :: Unstructured where
  "nodeItem = \<lparr> u_gvk = nodeGVK, u_Namespace = [], u_Name = ''n2'', u_content = ''{}'' \<rparr>"

text \<open>
  A cluster that serves pods and nodes and has none of the other kinds, with a decoder
  that fills in the identity.
\<close>

definition clusterEnv :: env where
  "clusterEnv =
     \<lparr> env_InitPod = InitPod_spec,
       env_FromUnstructured = (\<lambda>u zero.
          case zero of
            PodObj p \<Rightarrow> Inr (PodObj (p\<lparr>pod_Namespace := u_Namespace u, pod_Name := u_Name u\<rparr>))
          | NodeObj n \<Rightarrow> Inr (NodeObj (n\<lparr>node_Name := u_Name u\<rparr>))
          | TypedObj k _ _ \<Rightarrow> Inr (TypedObj k (u_Namespace u) (u_Name u))
          | UnstructuredObj _ \<Rightarrow> Inl (ErrOther ''not a typed object'')),
       env_RESTMapping = (\<lambda>gvk.
          if gvk = podGVK
          then (Some \<lparr> rm_Resource = ''pods'', rm_Scope = RESTScopeNameNamespace \<rparr>, None)
          else if gvk = nodeGVK
          then (Some \<lparr> rm_Resource = ''nodes'', rm_Scope = RESTScopeNameRoot \<rparr>, None)
          else (None, Some ErrNoMatch)),
       env_List = (\<lambda>res allNamespaces.
          if res = ''pods'' then (Some [podItem], None)
          else if res = ''nodes'' then (Some [nodeItem], None)
          else (None, Some (ErrNotFound [] res))),
       env_rangeOrder = map fst initResources \<rparr>"

text \<open>The same cluster when it cannot be reached.\<close>

definition unreachableEnv :: env where
  "unreachableEnv =
     clusterEnv\<lparr> env_RESTMapping := (\<lambda>gvk. (None, Some (ErrOther ''connection refused''))) \<rparr>"

text \<open>The package-level state and the request log after one load from \<open>clusterEnv\<close>.\<close>

definition loadedWorld :: world where
  "loadedWorld =
     \<lparr> once = True,
       initObjects = [podItem, nodeItem],
       requests =
         [ReqRESTMapping ([], ''v1'', ''Namespace''),
          ReqRESTMapping podGVK, ReqList ''pods'' True,
          ReqRESTMapping nodeGVK, ReqList ''nodes'' False,
          ReqRESTMapping ([], ''v1'', ''PersistentVolume''),
          ReqRESTMapping ([], ''v1'', ''PersistentVolumeClaim''),
          ReqRESTMapping (''storage.k8s.io'', ''v1'', ''StorageClass''),
          ReqRESTMapping (''storage.k8s.io'', ''v1'', ''CSINode''),
          ReqRESTMapping (''storage.k8s.io'', ''v1'', ''CSIDriver''),
          ReqRESTMapping (''storage.k8s.io'', ''v1'', ''CSIStorageCapacity'')] \<rparr>"

definition releasedPod :: Pod where
  "releasedPod = \<lparr> pod_Namespace = ''default'', pod_Name = ''db-0'',
     pod_OwnerReferences = Some [],
     pod_DeletionTimestamp = None, pod_NodeName = ''n1'', pod_Phase = PodRunning \<rparr>"

section \<open>Properties of the sanitizer\<close>

lemmas option_defs = WithExcludeNodes_def WithNodeImages_def WithScheduledPods_def
  WithIgnorePodsOnExcludesNode_def WithSaveTo_def NewGenericSimulator_def

text \<open>
  Claim C1, as stated, at a concrete input. The claim says that a DaemonSet pod on an
  excluded node is retained when "ignore pods on excluded nodes" is false. The pod
  \<open>daemonSetPod\<close> is on node \<open>n1\<close>, which is excluded, its first owner reference has kind
  DaemonSet, and the flag is false: \<open>preAdd\<close> does not include it.
\<close>

theorem preAdd_daemonset_retained_counterexample:
  "\<not> included (preAdd InitPod_spec (WithIgnorePodsOnExcludesNode False excludeN1)
        (PodObj daemonSetPod))"
  by (simp add: included_def excludeN1_def option_defs daemonSetPod_def
      dropOnExcludedNode_def ownedByDaemonSet_def)

text \<open>
  Claim C1, amended. For every pod whose assigned node is in the configured exclusion set
  and whose first owner reference has kind DaemonSet, \<open>preAdd\<close> returns include = false
  with no object, whatever the value of "ignore pods on excluded nodes" (and of every
  other flag): the source drops DaemonSet pods on excluded nodes by its own disjunct,
  under the comment "ignore ds pods on exclude nodes".
\<close>

theorem preAdd_daemonset_on_excluded_node_dropped:
  assumes "excludeNodes s = Some ex" and "pod_NodeName pod \<in> ex"
    and "pod_OwnerReferences pod = Some (r # rs)" and "owner_Kind r = ''DaemonSet''"
  shows "preAdd InitPod s (PodObj pod) = Inr (False, None)"
  using assms by (simp add: dropOnExcludedNode_def ownedByDaemonSet_def)

theorem preAdd_daemonset_on_excluded_node_dropped_witness:
  "excludeNodes excludeN1 = Some {''n1''} \<and> pod_NodeName daemonSetPod \<in> {''n1''}
   \<and> pod_OwnerReferences daemonSetPod
       = Some [\<lparr> owner_Kind = ''DaemonSet'', owner_Name = ''proxy'' \<rparr>]
   \<and> preAdd InitPod_spec excludeN1 (PodObj daemonSetPod) = Inr (False, None)"
  using preAdd_daemonset_on_excluded_node_dropped
    [of excludeN1 "{''n1''}" daemonSetPod
        "\<lparr> owner_Kind = ''DaemonSet'', owner_Name = ''proxy'' \<rparr>" "[]" InitPod_spec]
  by (simp add: excludeN1_def option_defs daemonSetPod_def)

text \<open>
  Claim C4 at a failing input. No exclusion set is configured (\<open>excludeNodes\<close> is \<^verbatim>\<open>nil\<close>)
  and "with node images" is disabled. The Node branch of \<open>preAdd\<close> is entered only when
  \<open>excludeNodes\<close> is not \<^verbatim>\<open>nil\<close>, so the node is returned with its image inventory
  untouched, where the claim says that it is cleared whether or not an exclusion set is
  configured. The Pod branch applies its own flag, "with scheduled pods", outside the
  test for \<^verbatim>\<open>nil\<close>.
\<close>

theorem preAdd_node_images_kept_without_exclusion_set:
  "preAdd InitPod_spec (WithNodeImages False NewGenericSimulator) (NodeObj nodeWithImages)
     = Inr (True, Some (NodeObj nodeWithImages))
   \<and> node_Images nodeWithImages \<noteq> None"
  by (simp add: option_defs nodeWithImages_def)

text \<open>
  With an exclusion set configured (be it empty), a node outside it is included with its
  image inventory cleared when "with node images" is disabled.
\<close>

lemma preAdd_node_images_cleared_with_exclusion_set:
  assumes "excludeNodes s = Some ex" and "node_Name node \<notin> ex" and "\<not> withNodeImages s"
  shows "preAdd InitPod s (NodeObj node) = Inr (True, Some (NodeObj (node\<lparr>node_Images := None\<rparr>)))"
  using assms by simp

text \<open>
  Claim C6 at a failing input. The pod \<open>succeededPod\<close> has phase Succeeded, is on the
  excluded node \<open>n1\<close>, and its owner references are a non-nil slice of length 0. With
  "ignore pods on excluded nodes" false, \<open>preAdd\<close> evaluates
  \<^verbatim>\<open>pod.OwnerReferences[0]\<close> and panics before it reaches the test of the phase, where
  the claim says that it returns include = false.
\<close>

theorem preAdd_terminal_pod_empty_owner_slice_panics:
  "preAdd InitPod_spec excludeN1 (PodObj succeededPod) = Inl PanicIndexOutOfRange"
  by (simp add: excludeN1_def option_defs succeededPod_def dropOnExcludedNode_def
      ownedByDaemonSet_def)

text \<open>
  On every other input the claim holds: a pod that has phase Succeeded or Failed, or a
  deletion timestamp, is returned with include = false, and the panic above is the only
  other outcome.
\<close>

lemma preAdd_terminal_pod_dropped_or_panic:
  assumes "pod_Phase pod = PodSucceeded \<or> pod_Phase pod = PodFailed
           \<or> pod_DeletionTimestamp pod \<noteq> None"
  shows "preAdd InitPod s (PodObj pod) = Inr (False, None)
         \<or> (preAdd InitPod s (PodObj pod) = Inl PanicIndexOutOfRange
            \<and> pod_OwnerReferences pod = Some [] \<and> \<not> ignorePodsOnExcludesNode s
            \<and> (\<exists>ex. excludeNodes s = Some ex \<and> pod_NodeName pod \<in> ex))"
  using assms
  by (auto simp add: dropOnExcludedNode_def ownedByDaemonSet_def
      split: option.splits list.splits bool.splits)

section \<open>Properties of Stop\<close>

lemma closeSignals_open:
  "signals s = [Open, Open, Open] \<Longrightarrow>
   closeSignals s = (None, s\<lparr>stopCh := Closed, informerCh := Closed, schedulerCh := Closed\<rparr>)"
  by (simp add: closeSignals_def signals_def close_def)

lemma stopLocked_stopped: "stopped s \<Longrightarrow> stopLocked os nm r s = (Inr None, s)"
  by (simp add: stopLocked_def)

lemma stopLocked_first:
  assumes "\<not> stopped s" and "signals s = [Open, Open, Open]"
    and "saveTo s = [] \<or> saveStatus os s = Inr None"
  shows "stopLocked os nm r s =
    (Inr None, s\<lparr>status := (status s)\<lparr>StopReason := r, Nodes := nm\<rparr>, stopped := True,
        stopCh := Closed, informerCh := Closed, schedulerCh := Closed\<rparr>)"
  using assms by (auto simp add: stopLocked_def closeSignals_open signals_def)

text \<open>
  Claim C2, as stated, at a concrete input. A persistence path is configured, the file
  opens, the status is serialized and the write fails. \<open>Stop\<close> returns the error of the
  write, and the three channels are open afterwards: they have not been released.
\<close>

theorem Stop_failed_save_releases_signals_counterexample:
  "fst (Stop diskFull smallStore ''done'' savingSimulator)
     = Inr (Some (ErrOther ''no space left on device''))
   \<and> signals (snd (Stop diskFull smallStore ''done'' savingSimulator)) = [Open, Open, Open]"
  by (simp add: Stop_def stopLocked_def saveStatus_def diskFull_def savingSimulator_def
      option_defs signals_def)

text \<open>
  Claim C2, amended. For every call of \<open>Stop\<close> on a simulator that is not stopped, with a
  persistence path configured, in which the file opens and serializing or writing the
  status fails: the error is returned to the caller, and the call does nothing else. The
  simulator is as it was, so none of the three channels is closed, the stopped flag is
  still false and the status is unchanged; a later call of \<open>Stop\<close> starts over.
\<close>

theorem Stop_failed_save_returns_error_unchanged:
  assumes "\<not> stopped s" and "saveTo s \<noteq> []" and "os_OpenFile os (saveTo s) = None"
    and "json_Marshal os (status s) = Inl err
         \<or> (json_Marshal os (status s) = Inr bytes \<and> file_Write os (saveTo s) bytes = Some err)"
  shows "Stop os t reason s = (Inr (Some err), s)"
  using assms by (auto simp add: Stop_def stopLocked_def saveStatus_def)

theorem Stop_failed_save_returns_error_unchanged_witness:
  "\<not> stopped savingSimulator \<and> saveTo savingSimulator \<noteq> []
   \<and> os_OpenFile diskFull (saveTo savingSimulator) = None
   \<and> json_Marshal diskFull (status savingSimulator) = Inr ''{}''
   \<and> file_Write diskFull (saveTo savingSimulator) ''{}''
       = Some (ErrOther ''no space left on device'')
   \<and> Stop diskFull smallStore ''done'' savingSimulator
       = (Inr (Some (ErrOther ''no space left on device'')), savingSimulator)"
  using Stop_failed_save_returns_error_unchanged
    [of savingSimulator diskFull "ErrOther ''no space left on device''" "''{}''"
        smallStore "''done''"]
  by (simp add: diskFull_def savingSimulator_def option_defs)

text \<open>The invariant of two calls whose save does not fail, step by step.\<close>

lemma stepCall_inv:
  assumes ok: "\<not> stopped s0" "signals s0 = [Open, Open, Open]"
    "saveTo s0 = [] \<or> saveStatus (arg_os a) s0 = Inr None"
  and inv: "stopInv s0 (s, ca, cb)"
  and st: "stepCall a ca s = (ca', s')"
  shows "stopInv s0 (s', ca', cb) \<and> stopInv s0 (s', cb, ca')
         \<and> progress ca' = min 2 (Suc (progress ca))"
proof (cases ca)
  case Entered
  with inv st show ?thesis by (auto simp add: stopInv_def returnedNil_def)
next
  case (Listed nm)
  show ?thesis
  proof (cases "stopped s")
    case True
    with inv st Listed ok show ?thesis
      by (auto simp add: stopInv_def returnedNil_def stopLocked_stopped)
  next
    case False
    with inv have s0: "s = s0" and pb: "progress cb < 2" by (auto simp add: stopInv_def)
    from pb have rb: "returnedNil cb" by (cases cb) (auto simp add: returnedNil_def)
    from s0 st Listed ok rb show ?thesis
      using stopLocked_first [of s0 "arg_os a" nm "arg_reason a"]
      by (auto simp add: stopInv_def returnedNil_def signals_def)
  qed
next
  case (Returned r)
  with inv st show ?thesis by (auto simp add: stopInv_def returnedNil_def)
qed

lemma stopInv_not_panicked: "stopInv s0 (s, ca, cb) \<Longrightarrow> \<not> panicked ca \<and> \<not> panicked cb"
  by (auto simp add: stopInv_def panicked_def returnedNil_def split: call.splits sum.splits)

lemma stopInv_sym: "stopInv s0 (s, ca, cb) = stopInv s0 (s, cb, ca)"
  by (auto simp add: stopInv_def)

lemma interleave_inv:
  assumes ok: "\<not> stopped s0" "signals s0 = [Open, Open, Open]"
    "saveTo s0 = [] \<or> (saveStatus (arg_os a) s0 = Inr None \<and> saveStatus (arg_os b) s0 = Inr None)"
  shows "stopInv s0 (s, ca, cb) \<Longrightarrow> interleave sch a b (s, ca, cb) = (s', ca', cb') \<Longrightarrow>
     stopInv s0 (s', ca', cb')
     \<and> progress ca' = min 2 (progress ca + length (filter id sch))
     \<and> progress cb' = min 2 (progress cb + length (filter Not sch))"
proof (induction sch arbitrary: s ca cb)
  case Nil
  then show ?case by (cases ca; cases cb) auto
next
  case (Cons first sch)
  from Cons.prems(1) have np: "\<not> panicked ca" "\<not> panicked cb"
    using stopInv_not_panicked by blast+
  show ?case
  proof (cases first)
    case True
    obtain ca1 s1 where st: "stepCall a ca s = (ca1, s1)" by (cases "stepCall a ca s")
    from ok have oka: "saveTo s0 = [] \<or> saveStatus (arg_os a) s0 = Inr None" by blast
    from stepCall_inv [OF ok(1) ok(2) oka Cons.prems(1) st]
    have i1: "stopInv s0 (s1, ca1, cb)" and p1: "progress ca1 = min 2 (Suc (progress ca))"
      by simp_all
    from Cons.prems(2) True np st have "interleave sch a b (s1, ca1, cb) = (s', ca', cb')"
      by simp
    from Cons.IH [OF i1 this] p1 True show ?thesis by auto
  next
    case False
    obtain cb1 s1 where st: "stepCall b cb s = (cb1, s1)" by (cases "stepCall b cb s")
    from ok have okb: "saveTo s0 = [] \<or> saveStatus (arg_os b) s0 = Inr None" by blast
    from Cons.prems(1) have "stopInv s0 (s, cb, ca)" using stopInv_sym by blast
    from stepCall_inv [OF ok(1) ok(2) okb this st]
    have i1: "stopInv s0 (s1, ca, cb1)" and p1: "progress cb1 = min 2 (Suc (progress cb))"
      by simp_all
    from Cons.prems(2) False np st have "interleave sch a b (s1, ca, cb1) = (s', ca', cb')"
      by simp
    from Cons.IH [OF i1 this] p1 False show ?thesis by auto
  qed
qed

text \<open>
  Whatever the save does, a call of \<open>Stop\<close> keeps the channels open until the simulator is
  stopped, and never closes a closed channel.
\<close>

lemma saveStatus_no_double_close: "saveStatus os s \<noteq> Inl PanicCloseOfClosedChannel"
  by (simp add: saveStatus_def split: option.splits sum.splits)

lemma stopLocked_consistent:
  assumes "consistent s"
  shows "consistent (snd (stopLocked os nm r s))
         \<and> fst (stopLocked os nm r s) \<noteq> Inl PanicCloseOfClosedChannel"
proof (cases "stopped s")
  case True
  with assms show ?thesis by (simp add: stopLocked_stopped)
next
  case False
  with assms have op: "signals s = [Open, Open, Open]" by (simp add: consistent_def)
  show ?thesis
  proof (cases "if length (saveTo s) > 0 then saveStatus os s else Inr None")
    case (Inl x)
    then have "x \<noteq> PanicCloseOfClosedChannel"
      using saveStatus_no_double_close [of os s] by (auto split: if_splits)
    with Inl False assms show ?thesis by (simp add: stopLocked_def)
  next
    case (Inr e)
    show ?thesis
    proof (cases e)
      case None
      with Inr have "saveTo s = [] \<or> saveStatus os s = Inr None" by (auto split: if_splits)
      from stopLocked_first [OF False op this, of nm r] show ?thesis
        by (simp add: consistent_def)
    next
      case (Some err)
      with Inr False assms show ?thesis by (simp add: stopLocked_def)
    qed
  qed
qed

lemma stepCall_consistent:
  assumes "consistent s" and "\<not> doubleClose ca" and "stepCall a ca s = (ca', s')"
  shows "consistent s' \<and> \<not> doubleClose ca'"
proof (cases ca)
  case Entered
  with assms show ?thesis by (auto simp add: doubleClose_def)
next
  case (Listed nm)
  with assms stopLocked_consistent [OF assms(1), of "arg_os a" nm "arg_reason a"]
  show ?thesis by (auto simp add: doubleClose_def split: prod.splits)
next
  case (Returned r)
  with assms show ?thesis by auto
qed

lemma interleave_consistent:
  "consistent s \<Longrightarrow> \<not> doubleClose ca \<Longrightarrow> \<not> doubleClose cb \<Longrightarrow>
   interleave sch a b (s, ca, cb) = (s', ca', cb') \<Longrightarrow>
   consistent s' \<and> \<not> doubleClose ca' \<and> \<not> doubleClose cb'"
proof (induction sch arbitrary: s ca cb)
  case Nil
  then show ?case by simp
next
  case (Cons first sch)
  show ?case
  proof (cases "panicked ca \<or> panicked cb")
    case True
    with Cons.prems show ?thesis by auto
  next
    case np: False
    show ?thesis
    proof (cases first)
      case True
      obtain ca1 s1 where st: "stepCall a ca s = (ca1, s1)" by (cases "stepCall a ca s")
      from stepCall_consistent [OF Cons.prems(1) Cons.prems(2) st]
      have c1: "consistent s1" and d1: "\<not> doubleClose ca1" by simp_all
      from Cons.prems(4) True np st have "interleave sch a b (s1, ca1, cb) = (s', ca', cb')"
        by simp
      from Cons.IH [OF c1 d1 Cons.prems(3) this] show ?thesis .
    next
      case False
      obtain cb1 s1 where st: "stepCall b cb s = (cb1, s1)" by (cases "stepCall b cb s")
      from stepCall_consistent [OF Cons.prems(1) Cons.prems(3) st]
      have c1: "consistent s1" and d1: "\<not> doubleClose cb1" by simp_all
      from Cons.prems(4) False np st have "interleave sch a b (s1, ca, cb1) = (s', ca', cb')"
        by simp
      from Cons.IH [OF c1 Cons.prems(2) d1 this] show ?thesis .
    qed
  qed
qed

lemma progress_done: "progress c = 2 \<Longrightarrow> returnedNil c \<Longrightarrow> c = Returned (Inr None)"
  by (cases c) (auto simp add: returnedNil_def)

text \<open>
  Claim C3, as stated, at a concrete input. With a persistence path configured and a
  write that fails, the first of two calls of \<open>Stop\<close> does not return \<^verbatim>\<open>nil\<close>, and after
  the two calls the channels are still open: each has been closed zero times.
\<close>

theorem Stop_twice_returns_nil_counterexample:
  "fst (Stop diskFull smallStore ''done'' savingSimulator) \<noteq> Inr None
   \<and> signals (snd (Stop diskFull smallStore ''again''
        (snd (Stop diskFull smallStore ''done'' savingSimulator)))) = [Open, Open, Open]"
  by (simp add: Stop_def stopLocked_def saveStatus_def diskFull_def savingSimulator_def
      option_defs signals_def)

text \<open>
  Claim C3, amended. Take a simulator as constructed: not stopped, its three channels
  open. Two calls of \<open>Stop\<close>, with whatever reasons and stores:

  \<^item> if the save of the first call does not fail (no persistence path is configured, or
    the file opens and the status is serialized and written), then run one after the
    other the first call returns \<^verbatim>\<open>nil\<close> and leaves the three channels closed, and the
    second returns \<^verbatim>\<open>nil\<close> and changes nothing;
  \<^item> if the save fails for neither call, then run concurrently under any schedule that
    lets both calls finish, both return \<^verbatim>\<open>nil\<close> and the three channels are closed;
  \<^item> in every case, whatever the save does, neither call panics on closing a closed
    channel, run one after the other or concurrently under any schedule.

  A channel goes from open to closed by one \<^verbatim>\<open>close\<close>, and a second \<^verbatim>\<open>close\<close> would be
  that panic: closed channels and no panic are channels closed exactly once.
\<close>

theorem Stop_twice_closes_once:
  assumes "\<not> stopped s" and "signals s = [Open, Open, Open]"
  shows "(saveTo s = [] \<or> saveStatus (arg_os a) s = Inr None \<longrightarrow>
            (\<exists>s1. Stop (arg_os a) (arg_store a) (arg_reason a) s = (Inr None, s1)
                 \<and> signals s1 = [Closed, Closed, Closed]
                 \<and> Stop (arg_os b) (arg_store b) (arg_reason b) s1 = (Inr None, s1)))
       \<and> ((saveTo s = []
             \<or> (saveStatus (arg_os a) s = Inr None \<and> saveStatus (arg_os b) s = Inr None))
            \<and> 2 \<le> length (filter id sch) \<and> 2 \<le> length (filter Not sch) \<longrightarrow>
            (\<exists>s2. interleave sch a b (s, Entered, Entered)
                    = (s2, Returned (Inr None), Returned (Inr None))
                 \<and> signals s2 = [Closed, Closed, Closed]))
       \<and> fst (Stop (arg_os a) (arg_store a) (arg_reason a) s) \<noteq> Inl PanicCloseOfClosedChannel
       \<and> fst (Stop (arg_os b) (arg_store b) (arg_reason b)
                (snd (Stop (arg_os a) (arg_store a) (arg_reason a) s)))
           \<noteq> Inl PanicCloseOfClosedChannel
       \<and> \<not> doubleClose (fst (snd (interleave sch a b (s, Entered, Entered))))
       \<and> \<not> doubleClose (snd (snd (interleave sch a b (s, Entered, Entered))))"
proof -
  have cons: "consistent s" using assms by (simp add: consistent_def)
  have A: "\<exists>s1. Stop (arg_os a) (arg_store a) (arg_reason a) s = (Inr None, s1)
                 \<and> signals s1 = [Closed, Closed, Closed]
                 \<and> Stop (arg_os b) (arg_store b) (arg_reason b) s1 = (Inr None, s1)"
    if ok: "saveTo s = [] \<or> saveStatus (arg_os a) s = Inr None"
    using stopLocked_first [OF assms ok]
    by (simp add: Stop_def stopLocked_stopped signals_def)
  have B: "\<exists>s2. interleave sch a b (s, Entered, Entered)
                    = (s2, Returned (Inr None), Returned (Inr None))
                 \<and> signals s2 = [Closed, Closed, Closed]"
    if ok: "saveTo s = []
            \<or> (saveStatus (arg_os a) s = Inr None \<and> saveStatus (arg_os b) s = Inr None)"
      and na: "2 \<le> length (filter id sch)" and nb: "2 \<le> length (filter Not sch)"
  proof -
    obtain s2 ca cb where run: "interleave sch a b (s, Entered, Entered) = (s2, ca, cb)"
      by (cases "interleave sch a b (s, Entered, Entered)")
    have i0: "stopInv s (s, Entered, Entered)" by (simp add: stopInv_def)
    from interleave_inv [OF assms ok i0 run] na nb
    have inv: "stopInv s (s2, ca, cb)" and pa: "progress ca = 2" and pb: "progress cb = 2"
      by simp_all
    from inv pa pb
    have "signals s2 = [Closed, Closed, Closed]" "returnedNil ca" "returnedNil cb"
      by (auto simp add: stopInv_def)
    with pa pb run show ?thesis using progress_done by auto
  qed
  have C: "fst (Stop (arg_os a) (arg_store a) (arg_reason a) s) \<noteq> Inl PanicCloseOfClosedChannel"
    and C': "consistent (snd (Stop (arg_os a) (arg_store a) (arg_reason a) s))"
    using stopLocked_consistent [OF cons] by (simp_all add: Stop_def)
  have D: "fst (Stop (arg_os b) (arg_store b) (arg_reason b)
                (snd (Stop (arg_os a) (arg_store a) (arg_reason a) s)))
           \<noteq> Inl PanicCloseOfClosedChannel"
    using stopLocked_consistent [OF C'] by (simp add: Stop_def)
  obtain s2 ca cb where run: "interleave sch a b (s, Entered, Entered) = (s2, ca, cb)"
    by (cases "interleave sch a b (s, Entered, Entered)")
  have E: "\<not> doubleClose ca \<and> \<not> doubleClose cb"
    using interleave_consistent [OF cons _ _ run] by (simp add: doubleClose_def)
  from A B C D E run show ?thesis by simp
qed

theorem Stop_twice_closes_once_witness:
  "\<not> stopped savingSimulator \<and> signals savingSimulator = [Open, Open, Open]
   \<and> saveStatus (arg_os stopDone) savingSimulator = Inr None
   \<and> 2 \<le> length (filter id [True, False, False, True])
   \<and> 2 \<le> length (filter Not [True, False, False, True])
   \<and> fst (Stop diskOk smallStore ''done'' savingSimulator) = Inr None
   \<and> signals (snd (Stop diskOk smallStore ''done'' savingSimulator)) = [Closed, Closed, Closed]
   \<and> fst (Stop diskOk smallStore ''done'' (snd (Stop diskOk smallStore ''done'' savingSimulator)))
       = Inr None
   \<and> snd (interleave [True, False, False, True] stopDone stopDone
            (savingSimulator, Entered, Entered))
       = (Returned (Inr None), Returned (Inr None))
   \<and> signals (fst (interleave [True, False, False, True] stopDone stopDone
            (savingSimulator, Entered, Entered))) = [Closed, Closed, Closed]"
proof -
  have h1: "\<not> stopped savingSimulator"
    by (simp add: savingSimulator_def option_defs)
  have h2: "signals savingSimulator = [Open, Open, Open]"
    by (simp add: savingSimulator_def option_defs signals_def)
  have h3: "saveStatus (arg_os stopDone) savingSimulator = Inr None"
    by (simp add: saveStatus_def stopDone_def diskOk_def)
  have args: "arg_os stopDone = diskOk" "arg_store stopDone = smallStore"
    "arg_reason stopDone = ''done''"
    by (simp_all add: stopDone_def)
  have h4: "2 \<le> length (filter id [True, False, False, True])"
    and h5: "2 \<le> length (filter Not [True, False, False, True])"
    by simp_all
  note inst = Stop_twice_closes_once
    [OF h1 h2, of stopDone stopDone "[True, False, False, True]", unfolded args]
  from inst h3 obtain s1 where
    A: "Stop diskOk smallStore ''done'' savingSimulator = (Inr None, s1)"
       "signals s1 = [Closed, Closed, Closed]"
       "Stop diskOk smallStore ''done'' s1 = (Inr None, s1)"
    unfolding args by blast
  from inst h3 h4 h5 obtain s2 where
    B: "interleave [True, False, False, True] stopDone stopDone
          (savingSimulator, Entered, Entered)
        = (s2, Returned (Inr None), Returned (Inr None))"
       "signals s2 = [Closed, Closed, Closed]"
    unfolding args by blast
  from A B h1 h2 h3 h4 h5 show ?thesis by (simp del: interleave.simps)
qed

section \<open>Properties of the virtual bind plugin\<close>

lemma pods_Get_identity:
  "pods_Get t ns n = Inr pod \<Longrightarrow> pod_Namespace pod = ns \<and> pod_Name pod = n"
  by (induction t ns n rule: pods_Get.induct) (auto split: if_splits)

lemma pods_Get_after_Update:
  "pods_Update t ns pod = Inr t' \<Longrightarrow> pod_Namespace pod = ns \<Longrightarrow>
   pods_Get t' ns (pod_Name pod) = Inr pod"
  by (induction t ns pod arbitrary: t' rule: pods_Update.induct)
     (auto split: if_splits sum.splits)

text \<open>
  Claim C5. \<open>Bind\<close> reads the pod from the store by the namespace and the name of the pod
  it is given. If the read fails, it returns an error status and leaves the store. If
  the read succeeds, it updates the store with the pod read, its node name set to
  \<open>nodeName\<close> and its phase to Running; if the update fails it returns an error status
  and leaves the store, and otherwise it returns \<^verbatim>\<open>nil\<close> with the updated store. This
  holds for every client. Over the isolated store, after a \<open>Bind\<close> that has returned
  \<^verbatim>\<open>nil\<close>, reading the pod back by the same namespace and name yields the pod that was
  stored, with node name \<open>nodeName\<close> and phase Running.
\<close>

theorem Bind_reads_updates_and_round_trips:
  "(client_Get (plugin_client b) st (pod_Namespace p) (pod_Name p) = Inl err \<longrightarrow>
      Bind b p nodeName st = (Some (NewStatus Error ''Unable to bind: %v'' err), st))
   \<and> (client_Get (plugin_client b) st (pod_Namespace p) (pod_Name p) = Inr pod
      \<and> client_Update (plugin_client b) st (pod_Namespace pod)
           (pod\<lparr>pod_NodeName := nodeName, pod_Phase := PodRunning\<rparr>) = Inl err \<longrightarrow>
      Bind b p nodeName st
        = (Some (NewStatus Error ''Unable to update binded pod: %v'' err), st))
   \<and> (client_Get (plugin_client b) st (pod_Namespace p) (pod_Name p) = Inr pod
      \<and> client_Update (plugin_client b) st (pod_Namespace pod)
           (pod\<lparr>pod_NodeName := nodeName, pod_Phase := PodRunning\<rparr>) = Inr st' \<longrightarrow>
      Bind b p nodeName st = (None, st'))
   \<and> (Bind (New hook fakeClient) p nodeName t = (None, t') \<longrightarrow>
      (\<exists>stored. pods_Get t (pod_Namespace p) (pod_Name p) = Inr stored
         \<and> pods_Get t' (pod_Namespace p) (pod_Name p)
             = Inr (stored\<lparr>pod_NodeName := nodeName, pod_Phase := PodRunning\<rparr>)))"
proof -
  have rt: "\<exists>stored. pods_Get t (pod_Namespace p) (pod_Name p) = Inr stored
         \<and> pods_Get t' (pod_Namespace p) (pod_Name p)
             = Inr (stored\<lparr>pod_NodeName := nodeName, pod_Phase := PodRunning\<rparr>)"
    if bound: "Bind (New hook fakeClient) p nodeName t = (None, t')"
  proof (cases "pods_Get t (pod_Namespace p) (pod_Name p)")
    case (Inl e)
    with bound show ?thesis by (simp add: Bind_def New_def fakeClient_def)
  next
    case (Inr stored)
    then have id: "pod_Namespace stored = pod_Namespace p" "pod_Name stored = pod_Name p"
      using pods_Get_identity by blast+
    let ?u = "stored\<lparr>pod_NodeName := nodeName, pod_Phase := PodRunning\<rparr>"
    from bound Inr have "pods_Update t (pod_Namespace stored) ?u = Inr t'"
      by (simp add: Bind_def New_def fakeClient_def split: sum.splits)
    from pods_Get_after_Update [OF this] id Inr show ?thesis by simp
  qed
  show ?thesis using rt by (auto simp add: Bind_def)
qed

theorem Bind_reads_updates_and_round_trips_witness:
  "client_Get (plugin_client (New (Some failingHook) fakeClient)) []
       (pod_Namespace pendingPod) (pod_Name pendingPod)
     = Inl (ErrNotFound ''default'' ''web-1'')
   \<and> Bind (New (Some failingHook) fakeClient) pendingPod ''n2'' []
     = (Some (NewStatus Error ''Unable to bind: %v'' (ErrNotFound ''default'' ''web-1'')), [])
   \<and> Bind (New (Some failingHook) readOnlyClient) pendingPod ''n2'' smallStore
     = (Some (NewStatus Error ''Unable to update binded pod: %v'' (ErrOther ''forbidden'')),
        smallStore)
   \<and> Bind (New (Some failingHook) fakeClient) pendingPod ''n2'' smallStore
     = (None, [NodeObj nodeWithImages,
               PodObj (pendingPod\<lparr>pod_NodeName := ''n2'', pod_Phase := PodRunning\<rparr>)])
   \<and> pods_Get [NodeObj nodeWithImages,
               PodObj (pendingPod\<lparr>pod_NodeName := ''n2'', pod_Phase := PodRunning\<rparr>)]
        ''default'' ''web-1''
     = Inr (pendingPod\<lparr>pod_NodeName := ''n2'', pod_Phase := PodRunning\<rparr>)"
  using Bind_reads_updates_and_round_trips
    [of "New (Some failingHook) fakeClient" "[]" pendingPod
        "ErrNotFound ''default'' ''web-1''" "''n2''" pendingPod "[]"
        "Some failingHook" smallStore
        "[NodeObj nodeWithImages,
          PodObj (pendingPod\<lparr>pod_NodeName := ''n2'', pod_Phase := PodRunning\<rparr>)]"]
    Bind_reads_updates_and_round_trips
    [of "New (Some failingHook) readOnlyClient" smallStore pendingPod
        "ErrOther ''forbidden''" "''n2''" pendingPod smallStore
        "Some failingHook" smallStore smallStore]
  by (simp add: New_def fakeClient_def readOnlyClient_def smallStore_def pendingPod_def
      Bind_def)

text \<open>
  Claim C7. Without a hook \<open>PostBind\<close> returns and nothing has run. With a hook,
  \<open>PostBind\<close> runs it once on the pod it is given: the state afterwards is the state in
  which that one run of the hook ends. Whether the hook returns \<^verbatim>\<open>nil\<close> or an error,
  \<open>PostBind\<close> returns normally and the error goes no further.
\<close>

theorem PostBind_runs_hook_and_drops_its_error:
  "(postBindHook b = None \<longrightarrow> PostBind b pod w = Inr w)
   \<and> (postBindHook b = Some hook \<and> hook pod w = Inr (err, w') \<longrightarrow> PostBind b pod w = Inr w')"
  by (auto simp add: PostBind_def split: option.splits)

theorem PostBind_runs_hook_and_drops_its_error_witness:
  "postBindHook (New None fakeClient) = (None :: (Pod \<Rightarrow> Pod list \<Rightarrow> _) option)
   \<and> PostBind (New None fakeClient) daemonSetPod ([] :: Pod list) = Inr []
   \<and> postBindHook (New (Some failingHook) fakeClient) = Some failingHook
   \<and> failingHook daemonSetPod [] = Inr (Some (ErrOther ''hook failed''), [daemonSetPod])
   \<and> PostBind (New (Some failingHook) fakeClient) daemonSetPod [] = Inr [daemonSetPod]"
  using PostBind_runs_hook_and_drops_its_error
    [of "New None fakeClient" daemonSetPod "[] :: Pod list"]
    PostBind_runs_hook_and_drops_its_error
    [of "New (Some failingHook) fakeClient" daemonSetPod "[]" failingHook
        "Some (ErrOther ''hook failed'')" "[daemonSetPod]"]
  by (simp add: New_def failingHook_def)

section \<open>Properties of GetPodsByNode\<close>

text \<open>
  Claim C10 at a failing input. The dump has an entry for node \<open>n1\<close>, and the entry lists
  no pod. \<open>GetPodsByNode\<close> returns the error "cannot get pods on the node because dump is
  nil", where the claim says that the call fails exactly when no cache snapshot is
  available for the node and succeeds with the pods of a node that is in the dump.
\<close>

theorem GetPodsByNode_node_without_pods_fails:
  "dump_Nodes dumpWithIdleNode ''n1'' = Some \<lparr> ni_Pods = [] \<rparr>
   \<and> GetPodsByNode (Some dumpWithIdleNode) ''n1'' = Inl ErrDumpNil"
  by (simp add: GetPodsByNode_def dumpWithIdleNode_def)

text \<open>
  What the code does on every input: it fails when the dump is \<^verbatim>\<open>nil\<close>, when the dump
  has no entry for the node, and when the entry lists no pod that is not \<^verbatim>\<open>nil\<close>;
  otherwise it returns the pods of the entry that are not \<^verbatim>\<open>nil\<close>, in order.
\<close>

lemma appendPods_eq:
  "appendPods pis res =
     (if List.map_filter pi_Pod pis = [] then res
      else Some ((case res of None \<Rightarrow> [] | Some ps \<Rightarrow> ps) @ List.map_filter pi_Pod pis))"
  by (induction pis arbitrary: res) (auto split: option.splits)

lemma GetPodsByNode_eq:
  "GetPodsByNode dump nodeName =
     (case dump of
        None \<Rightarrow> Inl ErrDumpNil
      | Some d \<Rightarrow>
          (case dump_Nodes d nodeName of
             None \<Rightarrow> Inl ErrDumpNil
           | Some nodeInfo \<Rightarrow>
               if List.map_filter pi_Pod (ni_Pods nodeInfo) = [] then Inl ErrDumpNil
               else Inr (List.map_filter pi_Pod (ni_Pods nodeInfo))))"
  by (simp add: GetPodsByNode_def appendPods_eq split: option.splits)

section \<open>Properties of the snapshot loader\<close>

lemma getInitObjects_latched: "once w \<Longrightarrow> getInitObjects e w = Inr (initObjects w, w)"
  by (simp add: getInitObjects_def once_Do_def)

lemma getInitObjects_sets_latch:
  "getInitObjects e w = Inr (objs, w') \<Longrightarrow> once w' \<and> initObjects w' = objs"
  by (auto simp add: getInitObjects_def once_Do_def split: if_splits sum.splits)

lemma getInitObjectsSeq_latched:
  "once w \<Longrightarrow> getInitObjectsSeq es w = Inr (replicate (length es) (initObjects w), w)"
  by (induction es) (simp_all add: getInitObjects_latched)

lemma resolvedKinds_append: "resolvedKinds (rs @ rs') = resolvedKinds rs @ resolvedKinds rs'"
  by (induction rs rule: resolvedKinds.induct) simp_all

lemma listRequests_append: "listRequests (rs @ rs') = listRequests rs @ listRequests rs'"
  by (induction rs rule: listRequests.induct) simp_all

lemma fetchKinds_requests:
  "fetchKinds e gvks w = Inr w' \<Longrightarrow>
   once w' = once w
   \<and> resolvedKinds (requests w') = resolvedKinds (requests w) @ gvks
   \<and> length (listRequests (requests w')) \<le> length (listRequests (requests w)) + length gvks"
proof (induction gvks arbitrary: w)
  case Nil
  then show ?case by simp
next
  case (Cons gvk gvks)
  obtain restMapping err where rm: "env_RESTMapping e gvk = (restMapping, err)"
    by (cases "env_RESTMapping e gvk")
  let ?w1 = "w\<lparr>requests := requests w @ [ReqRESTMapping gvk]\<rparr>"
  show ?case
  proof (cases restMapping)
    case None
    with Cons.prems rm have "fetchKinds e gvks ?w1 = Inr w'"
      by (simp add: Let_def split: if_splits)
    from Cons.IH [OF this] show ?thesis
      by (simp add: resolvedKinds_append listRequests_append)
  next
    case (Some m)
    let ?all = "rm_Scope m \<noteq> RESTScopeNameRoot"
    obtain list lerr where ls: "env_List e (rm_Resource m) ?all = (list, lerr)"
      by (cases "env_List e (rm_Resource m) ?all")
    let ?w2 = "?w1\<lparr>requests := requests ?w1 @ [ReqList (rm_Resource m) ?all]\<rparr>"
    from Cons.prems rm Some ls obtain items where
      "fetchKinds e gvks (?w2\<lparr>initObjects := initObjects ?w2 @ items\<rparr>) = Inr w'"
      by (auto simp add: Let_def split: if_splits option.splits)
    from Cons.IH [OF this] show ?thesis
      by (simp add: resolvedKinds_append listRequests_append)
  qed
qed

text \<open>
  Claim C8. In a sequence of calls of the loader in one process, whatever the real cluster
  answers at each call: either the first call ends the process (the body exits or
  panics), or it returns, and then every later call returns as well, with the same
  object list as the first, and leaves the package-level state and the request log as
  the first call left them, so that no later call sends a request to the real cluster.
  The body of the latch therefore runs in the first call or never. When the first call
  starts from the initial state and returns, the log holds one REST-mapping request for
  each kind visited, and at most as many list requests as kinds: the body has run once.
  Concurrent callers are serialized by \<^verbatim>\<open>sync.Once\<close>, which makes them such a sequence.
\<close>

theorem getInitObjects_fetches_at_most_once:
  "getInitObjectsSeq (e # es) w =
     (case getInitObjects e w of
        Inl x \<Rightarrow> Inl x
      | Inr (objs, w1) \<Rightarrow> Inr (replicate (Suc (length es)) objs, w1))
   \<and> (getInitObjects e initialWorld = Inr (objs, w1) \<longrightarrow>
        once w1
        \<and> getInitObjects e' w1 = Inr (objs, w1)
        \<and> resolvedKinds (requests w1) = env_rangeOrder e
        \<and> length (listRequests (requests w1)) \<le> length (env_rangeOrder e))"
proof -
  have seq: "getInitObjectsSeq (e # es) w =
     (case getInitObjects e w of
        Inl x \<Rightarrow> Inl x
      | Inr (objs, w1) \<Rightarrow> Inr (replicate (Suc (length es)) objs, w1))"
  proof (cases "getInitObjects e w")
    case (Inl x)
    then show ?thesis by simp
  next
    case (Inr r)
    obtain objs w1 where r: "r = (objs, w1)" by (cases r)
    from Inr r have "once w1" "initObjects w1 = objs"
      using getInitObjects_sets_latch by blast+
    with Inr r show ?thesis by (simp add: getInitObjectsSeq_latched)
  qed
  have first: "once w1 \<and> getInitObjects e' w1 = Inr (objs, w1)
        \<and> resolvedKinds (requests w1) = env_rangeOrder e
        \<and> length (listRequests (requests w1)) \<le> length (env_rangeOrder e)"
    if ret: "getInitObjects e initialWorld = Inr (objs, w1)"
  proof -
    from ret have l: "once w1" "initObjects w1 = objs"
      using getInitObjects_sets_latch by blast+
    from ret obtain w' where f: "fetchKinds e (env_rangeOrder e) initialWorld = Inr w'"
      and w1: "w1 = w'\<lparr>once := True\<rparr>"
      by (auto simp add: getInitObjects_def once_Do_def initialWorld_def split: sum.splits)
    from fetchKinds_requests [OF f] w1
    have "resolvedKinds (requests w1) = env_rangeOrder e"
      "length (listRequests (requests w1)) \<le> length (env_rangeOrder e)"
      by (simp_all add: initialWorld_def)
    with l show ?thesis by (simp add: getInitObjects_latched)
  qed
  from seq first show ?thesis by blast
qed

theorem getInitObjects_fetches_at_most_once_witness:
  "getInitObjects unreachableEnv initialWorld = Inl (Exit 1)
   \<and> getInitObjects clusterEnv initialWorld = Inr ([podItem, nodeItem], loadedWorld)
   \<and> getInitObjectsSeq [clusterEnv, unreachableEnv, clusterEnv] initialWorld
       = Inr (replicate 3 [podItem, nodeItem], loadedWorld)
   \<and> getInitObjects unreachableEnv loadedWorld = Inr ([podItem, nodeItem], loadedWorld)
   \<and> resolvedKinds (requests loadedWorld) = env_rangeOrder clusterEnv"
proof -
  have u: "getInitObjects unreachableEnv initialWorld = Inl (Exit 1)"
    by (simp add: getInitObjects_def once_Do_def initialWorld_def unreachableEnv_def
        clusterEnv_def initResources_def)
  have c: "getInitObjects clusterEnv initialWorld = Inr ([podItem, nodeItem], loadedWorld)"
    by (simp add: getInitObjects_def once_Do_def initialWorld_def clusterEnv_def
        initResources_def podGVK_def nodeGVK_def loadedWorld_def)
  note inst = getInitObjects_fetches_at_most_once
    [of clusterEnv "[unreachableEnv, clusterEnv]" initialWorld "[podItem, nodeItem]"
        loadedWorld unreachableEnv]
  from inst c
  have s: "getInitObjectsSeq [clusterEnv, unreachableEnv, clusterEnv] initialWorld
        = Inr (replicate 3 [podItem, nodeItem], loadedWorld)"
    by (simp add: numeral_3_eq_3 del: getInitObjectsSeq.simps)
  from inst c
  have l: "getInitObjects unreachableEnv loadedWorld = Inr ([podItem, nodeItem], loadedWorld)"
    and r: "resolvedKinds (requests loadedWorld) = env_rangeOrder clusterEnv"
    by simp_all
  from u c s l r show ?thesis by simp
qed

section \<open>Properties of InitTheWorld\<close>

text \<open>
  Claim C9 at a failing input. The explicit objects are a running pod on the excluded
  node \<open>n1\<close> whose owner references are a non-nil slice of length 0, and then an
  unstructured object. \<open>preAdd\<close> panics on the pod (the defect shown for claim C6), so
  \<open>InitTheWorld\<close> never reaches the unstructured object and returns no error, where the
  claim says that it returns an error if any object is unstructured.
\<close>

theorem InitTheWorld_panics_before_unstructured_object:
  "InitTheWorld clusterEnv excludeN1 [PodObj releasedPod, UnstructuredObj podItem]
     initialWorld [] = Inl PanicIndexOutOfRange"
  by (simp add: InitTheWorld_def addSanitized_def excludeN1_def option_defs releasedPod_def
      dropOnExcludedNode_def ownedByDaemonSet_def)

text \<open>
  Apart from that panic the claim holds. Both loops run on from where a prefix without
  failure has left the store.
\<close>

lemma initFromObjs_append:
  "initFromObjs IP s (pre @ rest) t =
     (case initFromObjs IP s pre t of
        Inl x \<Rightarrow> Inl x
      | Inr (Some err, t') \<Rightarrow> Inr (Some err, t')
      | Inr (None, t') \<Rightarrow> initFromObjs IP s rest t')"
  by (induction pre arbitrary: t) (auto split: Object.splits sum.splits option.splits)

lemma initFromSnapshot_append:
  "initFromSnapshot e s (pre @ rest) t =
     (case initFromSnapshot e s pre t of
        Inl x \<Rightarrow> Inl x
      | Inr (Some err, t') \<Rightarrow> Inr (Some err, t')
      | Inr (None, t') \<Rightarrow> initFromSnapshot e s rest t')"
  by (induction pre arbitrary: t) (auto split: sum.splits option.splits)

lemma initFromObjs_typed:
  "\<forall>u. obj \<noteq> UnstructuredObj u \<Longrightarrow>
   initFromObjs IP s (obj # objs) t =
     (case addSanitized IP s obj t of
        Inl x \<Rightarrow> Inl x
      | Inr (Some err, t1) \<Rightarrow> Inr (Some err, t1)
      | Inr (None, t1) \<Rightarrow> initFromObjs IP s objs t1)"
  by (cases obj) simp_all

text \<open>Nothing is ever taken out of the store, whatever the call returns.\<close>

lemma addSanitized_extends:
  "addSanitized IP s obj t = Inr (r, t') \<Longrightarrow> \<exists>added. t' = t @ added"
  by (auto simp add: addSanitized_def tracker_Add_def
      split: sum.splits prod.splits if_splits option.splits)

lemma addSanitized_inserted:
  "addSanitized IP s obj t = Inr (None, t') \<Longrightarrow> preAdd IP s obj = Inr (True, Some ob) \<Longrightarrow>
   ob \<in> set t'"
  by (auto simp add: addSanitized_def tracker_Add_def split: sum.splits if_splits prod.splits)

lemma initFromObjs_extends:
  "initFromObjs IP s objs t = Inr (r, t') \<Longrightarrow> \<exists>added. t' = t @ added"
proof (induction objs arbitrary: t)
  case Nil
  then show ?case by simp
next
  case (Cons obj objs)
  show ?case
  proof (cases "\<exists>u. obj = UnstructuredObj u")
    case True
    with Cons.prems show ?thesis by auto
  next
    case False
    then have step: "initFromObjs IP s (obj # objs) t =
       (case addSanitized IP s obj t of
          Inl x \<Rightarrow> Inl x
        | Inr (Some err, t1) \<Rightarrow> Inr (Some err, t1)
        | Inr (None, t1) \<Rightarrow> initFromObjs IP s objs t1)"
      by (cases obj) simp_all
    from Cons.prems step obtain r1 t1 where a: "addSanitized IP s obj t = Inr (r1, t1)"
      by (cases "addSanitized IP s obj t") auto
    from addSanitized_extends [OF a] obtain added1 where t1: "t1 = t @ added1" by blast
    show ?thesis
    proof (cases r1)
      case None
      with Cons.prems step a have "initFromObjs IP s objs t1 = Inr (r, t')" by simp
      from Cons.IH [OF this] t1 show ?thesis by auto
    next
      case (Some err)
      with Cons.prems step a t1 show ?thesis by auto
    qed
  qed
qed

lemma initFromObjs_inserted:
  "initFromObjs IP s objs t = Inr (None, t') \<Longrightarrow> obj \<in> set objs \<Longrightarrow>
   preAdd IP s obj = Inr (True, Some ob) \<Longrightarrow> ob \<in> set t'"
proof (induction objs arbitrary: t)
  case Nil
  then show ?case by simp
next
  case (Cons x objs)
  from Cons.prems(1) have nu: "\<forall>u. x \<noteq> UnstructuredObj u" by auto
  then have step: "initFromObjs IP s (x # objs) t =
       (case addSanitized IP s x t of
          Inl f \<Rightarrow> Inl f
        | Inr (Some err, t1) \<Rightarrow> Inr (Some err, t1)
        | Inr (None, t1) \<Rightarrow> initFromObjs IP s objs t1)"
    by (cases x) simp_all
  from Cons.prems(1) step obtain t1 where a: "addSanitized IP s x t = Inr (None, t1)"
    and rest: "initFromObjs IP s objs t1 = Inr (None, t')"
    by (auto split: sum.splits option.splits)
  show ?case
  proof (cases "obj = x")
    case True
    with a Cons.prems(3) have "ob \<in> set t1" using addSanitized_inserted by blast
    moreover from initFromObjs_extends [OF rest] have "set t1 \<subseteq> set t'" by auto
    ultimately show ?thesis by blast
  next
    case False
    with Cons.prems(2) have "obj \<in> set objs" by simp
    from Cons.IH [OF rest this Cons.prems(3)] show ?thesis .
  qed
qed

lemma initFromSnapshot_extends:
  "initFromSnapshot e s us t = Inr (r, t') \<Longrightarrow> \<exists>added. t' = t @ added"
proof (induction us arbitrary: t)
  case Nil
  then show ?case by simp
next
  case (Cons u us)
  from Cons.prems obtain zero where z: "map_of initResources (u_gvk u) = Some zero"
    by (auto split: option.splits)
  show ?case
  proof (cases "env_FromUnstructured e u zero")
    case (Inl err)
    with Cons.prems z show ?thesis by auto
  next
    case (Inr obj)
    from Cons.prems z Inr obtain r1 t1 where
      a: "addSanitized (env_InitPod e) s obj t = Inr (r1, t1)"
      by (cases "addSanitized (env_InitPod e) s obj t") auto
    from addSanitized_extends [OF a] obtain added1 where t1: "t1 = t @ added1" by blast
    show ?thesis
    proof (cases r1)
      case None
      with Cons.prems z Inr a have "initFromSnapshot e s us t1 = Inr (r, t')" by simp
      from Cons.IH [OF this] t1 show ?thesis by auto
    next
      case (Some err)
      with Cons.prems z Inr a t1 show ?thesis by auto
    qed
  qed
qed

text \<open>
  The first failure among explicit objects. When the objects before it have been
  processed without failure and have left the store \<open>t1\<close>: an unstructured object makes
  \<open>InitTheWorld\<close> return the rejection, and an object whose insertion fails makes it
  return that error; in both cases the store is \<open>t1\<close>, the objects after it are not
  looked at, and \<open>t1\<close> holds what the store held before the call and every object
  inserted from the prefix.
\<close>

lemma InitTheWorld_first_failure_explicit:
  assumes pre: "initFromObjs (env_InitPod e) s pre t = Inr (None, t1)"
  shows "InitTheWorld e s (pre @ UnstructuredObj u # post) w t
           = Inr (Some ErrUnstructured, w, t1)"
    and "(\<forall>u. obj \<noteq> UnstructuredObj u) \<Longrightarrow> preAdd (env_InitPod e) s obj = Inr (True, Some ob)
         \<Longrightarrow> tracker_Add t1 ob = Inl err
         \<Longrightarrow> InitTheWorld e s (pre @ obj # post) w t = Inr (Some err, w, t1)"
    and "\<exists>added. t1 = t @ added"
    and "x \<in> set pre \<Longrightarrow> preAdd (env_InitPod e) s x = Inr (True, Some y) \<Longrightarrow> y \<in> set t1"
proof -
  show "InitTheWorld e s (pre @ UnstructuredObj u # post) w t
           = Inr (Some ErrUnstructured, w, t1)"
    using pre by (simp add: InitTheWorld_def initFromObjs_append)
  show "InitTheWorld e s (pre @ obj # post) w t = Inr (Some err, w, t1)"
    if "\<forall>u. obj \<noteq> UnstructuredObj u" "preAdd (env_InitPod e) s obj = Inr (True, Some ob)"
      "tracker_Add t1 ob = Inl err"
  proof -
    from that(2,3) have "addSanitized (env_InitPod e) s obj t1 = Inr (Some err, t1)"
      by (simp add: addSanitized_def)
    with pre that(1) show ?thesis
      by (simp add: InitTheWorld_def initFromObjs_append initFromObjs_typed
          del: initFromObjs.simps)
  qed
  show "\<exists>added. t1 = t @ added" using initFromObjs_extends [OF pre] .
  show "y \<in> set t1" if "x \<in> set pre" "preAdd (env_InitPod e) s x = Inr (True, Some y)"
    using initFromObjs_inserted [OF pre that] .
qed

text \<open>
  The first failure in the snapshot: a decode failure, or an insertion that fails, after
  a prefix processed without failure.
\<close>

lemma InitTheWorld_first_failure_snapshot:
  assumes load: "getInitObjects e w = Inr (pre @ u # post, w1)"
    and pre: "initFromSnapshot e s pre t = Inr (None, t1)"
    and zero: "map_of initResources (u_gvk u) = Some zero"
  shows "env_FromUnstructured e u zero = Inl err
         \<Longrightarrow> InitTheWorld e s [] w t = Inr (Some err, w1, t1)"
    and "env_FromUnstructured e u zero = Inr obj
         \<Longrightarrow> preAdd (env_InitPod e) s obj = Inr (True, Some ob)
         \<Longrightarrow> tracker_Add t1 ob = Inl err
         \<Longrightarrow> InitTheWorld e s [] w t = Inr (Some err, w1, t1)"
    and "\<exists>added. t1 = t @ added"
proof -
  show "InitTheWorld e s [] w t = Inr (Some err, w1, t1)"
    if "env_FromUnstructured e u zero = Inl err"
    using load pre zero that by (simp add: InitTheWorld_def initFromSnapshot_append)
  show "InitTheWorld e s [] w t = Inr (Some err, w1, t1)"
    if "env_FromUnstructured e u zero = Inr obj"
      "preAdd (env_InitPod e) s obj = Inr (True, Some ob)" "tracker_Add t1 ob = Inl err"
    using load pre zero that
    by (simp add: InitTheWorld_def initFromSnapshot_append addSanitized_def)
  show "\<exists>added. t1 = t @ added" using initFromSnapshot_extends [OF pre] .
qed

text \<open>
  With an unstructured object among the explicit objects the call never returns \<^verbatim>\<open>nil\<close>,
  and it returns an error unless \<open>preAdd\<close> panics.
\<close>

lemma preAdd_fault: "preAdd IP s obj = Inl x \<Longrightarrow> x = PanicIndexOutOfRange"
  by (cases obj)
     (auto simp add: dropOnExcludedNode_def ownedByDaemonSet_def
        split: option.splits if_splits list.splits sum.splits bool.splits)

lemma preAdd_object: "preAdd IP s obj = Inr (True, ob) \<Longrightarrow> ob \<noteq> None"
  by (cases obj)
     (auto simp add: dropOnExcludedNode_def
        split: option.splits if_splits sum.splits bool.splits)

lemma addSanitized_fault: "addSanitized IP s obj t = Inl x \<Longrightarrow> x = PanicIndexOutOfRange"
  using preAdd_fault [of IP s obj] preAdd_object [of IP s obj]
  by (auto simp add: addSanitized_def split: sum.splits prod.splits if_splits option.splits)

lemma initFromObjs_unstructured:
  "UnstructuredObj u \<in> set objs \<Longrightarrow>
   initFromObjs IP s objs t = Inl PanicIndexOutOfRange
   \<or> (\<exists>err t'. initFromObjs IP s objs t = Inr (Some err, t'))"
proof (induction objs arbitrary: t)
  case Nil
  then show ?case by simp
next
  case (Cons obj objs)
  show ?case
  proof (cases "\<exists>v. obj = UnstructuredObj v")
    case True
    then show ?thesis by auto
  next
    case False
    then have step: "initFromObjs IP s (obj # objs) t =
       (case addSanitized IP s obj t of
          Inl x \<Rightarrow> Inl x
        | Inr (Some err, t1) \<Rightarrow> Inr (Some err, t1)
        | Inr (None, t1) \<Rightarrow> initFromObjs IP s objs t1)"
      by (cases obj) simp_all
    from False Cons.prems have mem: "UnstructuredObj u \<in> set objs" by auto
    show ?thesis
    proof (cases "addSanitized IP s obj t")
      case (Inl x)
      with step addSanitized_fault [OF Inl] show ?thesis by simp
    next
      case (Inr r)
      obtain r1 t1 where r: "r = (r1, t1)" by (cases r)
      show ?thesis
      proof (cases r1)
        case None
        with step Inr r Cons.IH [OF mem, of t1] show ?thesis by simp
      next
        case (Some err)
        with step Inr r show ?thesis by simp
      qed
    qed
  qed
qed

lemma InitTheWorld_unstructured:
  assumes "UnstructuredObj u \<in> set objs"
  shows "InitTheWorld e s objs w t = Inl PanicIndexOutOfRange
         \<or> (\<exists>err t'. InitTheWorld e s objs w t = Inr (Some err, w, t'))"
proof -
  from assms have ne: "length objs \<noteq> 0" by auto
  from initFromObjs_unstructured [OF assms, of "env_InitPod e" s t] ne
  show ?thesis by (auto simp add: InitTheWorld_def)
qed

end
